theory Spec2Isabelle
  imports Complex_Main "HOL-Library.Monad_Syntax"
begin

section \<open>The Pi Cycle indicator of 2-pi-cycle-indicator.cpp\<close>

text \<open>
  The embedding follows \<^verbatim>\<open>2-pi-cycle-indicator.cpp\<close> function by function.

  \<^item> A C++ \<^verbatim>\<open>double\<close> is modelled as a \<^typ>\<open>real\<close>: arithmetic is exact, every value
    is finite, \<^verbatim>\<open>std::pow(x, 2)\<close> is \<open>x\<^sup>2\<close> and \<^verbatim>\<open>std::sqrt\<close> is \<^const>\<open>sqrt\<close>.
    Rounding, overflow, infinities and NaN are outside the model.
  \<^item> A \<^verbatim>\<open>std::vector\<close> is a list. \<^verbatim>\<open>operator[]\<close> does not check its index, and an index
    out of range is undefined behaviour: the model reads and writes through \<open>vec_at\<close> and
    \<open>vec_upd\<close>, which return \<^const>\<open>None\<close> there, so every function that touches a vector
    returns an \<^typ>\<open>'a option\<close> and \<^const>\<open>None\<close> stands for undefined behaviour.
  \<^item> A \<^verbatim>\<open>size_t\<close> index is a \<^typ>\<open>nat\<close>. Where the source subtracts indices the
    subtraction is modelled by \<open>vec_at_sub\<close>: a difference that would wrap around is an index
    beyond every vector.
  \<^item> Each \<^verbatim>\<open>for\<close> loop is a recursive function on its loop variable, with the loop's
    local accumulators and the vector it mutates as further arguments.
  \<^item> The four global variables are a record that \<open>display_public\<close> writes and
    \<open>prediction_target_step\<close> reads.
\<close>

subsection \<open>Data\<close>

text \<open>
  \<^verbatim>\<open>struct Kline { std::string date; double price; }\<close>. The struct \<^verbatim>\<open>PiCycleData\<close> has
  fields of the same names \<^verbatim>\<open>date\<close> and \<^verbatim>\<open>price\<close> followed by eleven doubles, each with the
  default member initialiser \<^verbatim>\<open>0.0\<close>; it is modelled as an extension of the first record,
  so that both structs keep their field names. The fields \<^verbatim>\<open>ceiling\<close> and \<^verbatim>\<open>floor\<close> are
  \<open>ceiling_f\<close> and \<open>floor_f\<close> here (the plain names are the rounding functions of HOL).
\<close>

record Kline =
  date :: string
  price :: real

record PiCycleData = Kline +
  ma_365 :: real
  std_365 :: real
  ceiling_f :: real
  floor_f :: real
  median :: real
  dynamic_step :: real
  step :: real
  change :: real
  move :: real
  offset :: real
  weeks_52 :: real

text \<open>A value-initialised \<^verbatim>\<open>PiCycleData\<close>, as the elements of \<^verbatim>\<open>pi_data(klines.size())\<close>.\<close>

definition PiCycleData_init :: PiCycleData where
  "PiCycleData_init =
     \<lparr>date = [], price = 0, ma_365 = 0, std_365 = 0, ceiling_f = 0, floor_f = 0,
      median = 0, dynamic_step = 0, step = 0, change = 0, move = 0, offset = 0,
      weeks_52 = 0\<rparr>"

subsection \<open>Vector access\<close>

definition vec_at :: "'a list \<Rightarrow> nat \<Rightarrow> 'a option" where
  "vec_at xs i = (if i < length xs then Some (xs ! i) else None)"

text \<open>\<^verbatim>\<open>xs[i - j]\<close> on \<^verbatim>\<open>size_t\<close>: with \<open>i < j\<close> the index wraps around to a value no
  vector reaches.\<close>

definition vec_at_sub :: "'a list \<Rightarrow> nat \<Rightarrow> nat \<Rightarrow> 'a option" where
  "vec_at_sub xs i j = (if j \<le> i then vec_at xs (i - j) else None)"

text \<open>\<^verbatim>\<open>xs[i].field = e\<close>, where \<open>e\<close> may read \<^verbatim>\<open>xs[i]\<close>.\<close>

definition vec_upd :: "'a list \<Rightarrow> nat \<Rightarrow> ('a \<Rightarrow> 'a) \<Rightarrow> 'a list option" where
  "vec_upd xs i f = (if i < length xs then Some (xs[i := f (xs ! i)]) else None)"

subsection \<open>\<^verbatim>\<open>price_projection\<close>: the window statistics\<close>

text \<open>\<^verbatim>\<open>for (size_t j = i - 364; j <= i; ++j) sum_price += klines[j].price;\<close>\<close>

function sum_price_loop :: "Kline list \<Rightarrow> nat \<Rightarrow> nat \<Rightarrow> real \<Rightarrow> real option" where
  "sum_price_loop klines i j sum_price =
     (if j \<le> i then
        (case vec_at klines j of
           None \<Rightarrow> None
         | Some k \<Rightarrow> sum_price_loop klines i (Suc j) (sum_price + price k))
      else Some sum_price)"
  by pat_completeness auto
termination
  by (relation "measure (\<lambda>(klines, i, j, sum_price). Suc i - j)") auto

declare sum_price_loop.simps [simp del]

text \<open>\<^verbatim>\<open>for (size_t j = i - 364; j <= i; ++j)
    sum_sq_diff += std::pow(klines[j].price - pi_data[i].ma_365, 2);\<close>\<close>

function sum_sq_diff_loop ::
  "Kline list \<Rightarrow> PiCycleData list \<Rightarrow> nat \<Rightarrow> nat \<Rightarrow> real \<Rightarrow> real option" where
  "sum_sq_diff_loop klines pi_data i j sum_sq_diff =
     (if j \<le> i then
        (case vec_at klines j of
           None \<Rightarrow> None
         | Some k \<Rightarrow>
             (case vec_at pi_data i of
                None \<Rightarrow> None
              | Some r \<Rightarrow>
                  sum_sq_diff_loop klines pi_data i (Suc j)
                    (sum_sq_diff + (price k - ma_365 r)\<^sup>2)))
      else Some sum_sq_diff)"
  by pat_completeness auto
termination
  by (relation "measure (\<lambda>(klines, pi_data, i, j, sum_sq_diff). Suc i - j)") auto

declare sum_sq_diff_loop.simps [simp del]

text \<open>The body of \<^verbatim>\<open>if (i >= 364) { ... }\<close>.\<close>

definition window_stats :: "Kline list \<Rightarrow> nat \<Rightarrow> PiCycleData list \<Rightarrow> PiCycleData list option" where
  "window_stats klines i pi_data =
     do {
       sum_price \<leftarrow> sum_price_loop klines i (i - 364) 0;
       pi_data \<leftarrow> vec_upd pi_data i (\<lambda>r. r\<lparr>ma_365 := sum_price / 365\<rparr>);
       sum_sq_diff \<leftarrow> sum_sq_diff_loop klines pi_data i (i - 364) 0;
       pi_data \<leftarrow> vec_upd pi_data i (\<lambda>r. r\<lparr>std_365 := sqrt (sum_sq_diff / 365)\<rparr>);
       pi_data \<leftarrow> vec_upd pi_data i (\<lambda>r. r\<lparr>ceiling_f := ma_365 r + 2 * std_365 r\<rparr>);
       pi_data \<leftarrow> vec_upd pi_data i (\<lambda>r. r\<lparr>floor_f := ma_365 r\<rparr>);
       vec_upd pi_data i (\<lambda>r. r\<lparr>median := (ceiling_f r + floor_f r) / 2\<rparr>)
     }"

text \<open>One iteration of the outer loop of \<^verbatim>\<open>price_projection\<close>.\<close>

definition price_projection_body ::
  "Kline list \<Rightarrow> nat \<Rightarrow> PiCycleData list \<Rightarrow> PiCycleData list option" where
  "price_projection_body klines i pi_data =
     do {
       k \<leftarrow> vec_at klines i;
       pi_data \<leftarrow> vec_upd pi_data i (\<lambda>r. r\<lparr>date := date k\<rparr>);
       pi_data \<leftarrow> vec_upd pi_data i (\<lambda>r. r\<lparr>price := price k\<rparr>);
       if 364 \<le> i then window_stats klines i pi_data else Some pi_data
     }"

text \<open>\<^verbatim>\<open>for (size_t i = 0; i < klines.size(); ++i) { ... }\<close>\<close>

function price_projection_loop ::
  "Kline list \<Rightarrow> nat \<Rightarrow> PiCycleData list \<Rightarrow> PiCycleData list option" where
  "price_projection_loop klines i pi_data =
     (if i < length klines then
        (case price_projection_body klines i pi_data of
           None \<Rightarrow> None
         | Some pi_data' \<Rightarrow> price_projection_loop klines (Suc i) pi_data')
      else Some pi_data)"
  by pat_completeness auto
termination
  by (relation "measure (\<lambda>(klines, i, pi_data). length klines - i)") auto

declare price_projection_loop.simps [simp del]

text \<open>\<^verbatim>\<open>price_projection(klines, yearly_multiplier)\<close>; the second parameter is never read.\<close>

definition price_projection :: "Kline list \<Rightarrow> real \<Rightarrow> PiCycleData list option" where
  "price_projection klines yearly_multiplier =
     price_projection_loop klines 0 (replicate (length klines) PiCycleData_init)"

subsection \<open>\<^verbatim>\<open>add_calculated_fields\<close>: the derived fields\<close>

text \<open>The body of the first loop: daily change and percentage move.\<close>

definition change_body :: "nat \<Rightarrow> PiCycleData list \<Rightarrow> PiCycleData list option" where
  "change_body i pi_data =
     do {
       cur \<leftarrow> vec_at pi_data i;
       prev \<leftarrow> vec_at_sub pi_data i 1;
       pi_data \<leftarrow> vec_upd pi_data i (\<lambda>r. r\<lparr>change := price cur - price prev\<rparr>);
       prev \<leftarrow> vec_at_sub pi_data i 1;
       if price prev \<noteq> 0 then
         do {
           cur \<leftarrow> vec_at pi_data i;
           vec_upd pi_data i (\<lambda>r. r\<lparr>move := (price cur - price prev) / price prev * 100\<rparr>)
         }
       else Some pi_data
     }"

text \<open>\<^verbatim>\<open>for (size_t i = 1; i < pi_data.size(); ++i) { ... }\<close>\<close>

function change_loop :: "nat \<Rightarrow> PiCycleData list \<Rightarrow> PiCycleData list option" where
  "change_loop i pi_data =
     (if i < length pi_data then
        (case change_body i pi_data of
           None \<Rightarrow> None
         | Some pi_data' \<Rightarrow> change_loop (Suc i) pi_data')
      else Some pi_data)"
  by pat_completeness auto
termination
proof (relation "measure (\<lambda>(i, pi_data). length pi_data - i)")
  show "wf (measure (\<lambda>(i, pi_data). length pi_data - i))" by simp
next
  fix i :: nat and pi_data x2 :: "PiCycleData list"
  assume lt: "i < length pi_data" and b: "change_body i pi_data = Some x2"
  have "length x2 = length pi_data"
    using b by (auto simp: change_body_def vec_upd_def vec_at_def vec_at_sub_def
        split: if_splits bind_splits)
  then show "((Suc i, x2), (i, pi_data)) \<in> measure (\<lambda>(i, pi_data). length pi_data - i)"
    using lt by simp
qed

declare change_loop.simps [simp del]

text \<open>\<^verbatim>\<open>for (int j = 0; j < lookback_days_for_step; ++j)
    sum_daily_diff += pi_data[i - j].change;\<close>\<close>

definition lookback_days_for_step :: nat where
  "lookback_days_for_step = 364"

function sum_daily_diff_loop :: "PiCycleData list \<Rightarrow> nat \<Rightarrow> nat \<Rightarrow> real \<Rightarrow> real option" where
  "sum_daily_diff_loop pi_data i j sum_daily_diff =
     (if j < lookback_days_for_step then
        (case vec_at_sub pi_data i j of
           None \<Rightarrow> None
         | Some r \<Rightarrow> sum_daily_diff_loop pi_data i (Suc j) (sum_daily_diff + change r))
      else Some sum_daily_diff)"
  by pat_completeness auto
termination
  by (relation "measure (\<lambda>(pi_data, i, j, s). lookback_days_for_step - j)") auto

declare sum_daily_diff_loop.simps [simp del]

text \<open>The body of the second loop: the dynamic step.\<close>

definition step_body :: "nat \<Rightarrow> PiCycleData list \<Rightarrow> PiCycleData list option" where
  "step_body i pi_data =
     do {
       pi_data \<leftarrow>
         (if lookback_days_for_step \<le> i then
            do {
              sum_daily_diff \<leftarrow> sum_daily_diff_loop pi_data i 0 0;
              vec_upd pi_data i
                (\<lambda>r. r\<lparr>dynamic_step := sum_daily_diff / real lookback_days_for_step\<rparr>)
            }
          else Some pi_data);
       vec_upd pi_data i (\<lambda>r. r\<lparr>step := dynamic_step r\<rparr>)
     }"

text \<open>The body of the third loop: the offset from the median.\<close>

definition offset_body :: "nat \<Rightarrow> PiCycleData list \<Rightarrow> PiCycleData list option" where
  "offset_body i pi_data =
     do {
       r \<leftarrow> vec_at pi_data i;
       if median r \<noteq> 0 then
         vec_upd pi_data i (\<lambda>r. r\<lparr>offset := ((price r - median r) / median r) * 100\<rparr>)
       else Some pi_data
     }"

text \<open>The body of the fourth loop: the change against the price 364 rows back.\<close>

definition weeks_52_body :: "nat \<Rightarrow> PiCycleData list \<Rightarrow> PiCycleData list option" where
  "weeks_52_body i pi_data =
     (if 364 \<le> i then
        do {
          old \<leftarrow> vec_at_sub pi_data i 364;
          if price old \<noteq> 0 then
            do {
              cur \<leftarrow> vec_at pi_data i;
              old \<leftarrow> vec_at_sub pi_data i 364;
              vec_upd pi_data i (\<lambda>r. r\<lparr>weeks_52 := ((price cur - price old) / price old) * 100\<rparr>)
            }
          else Some pi_data
        }
      else Some pi_data)"

text \<open>The last three loops, each \<^verbatim>\<open>for (size_t i = 0; i < pi_data.size(); ++i) { ... }\<close>.\<close>

function step_loop :: "nat \<Rightarrow> PiCycleData list \<Rightarrow> PiCycleData list option" where
  "step_loop i pi_data =
     (if i < length pi_data then
        (case step_body i pi_data of
           None \<Rightarrow> None
         | Some pi_data' \<Rightarrow> step_loop (Suc i) pi_data')
      else Some pi_data)"
  by pat_completeness auto
termination
proof (relation "measure (\<lambda>(i, pi_data). length pi_data - i)")
  show "wf (measure (\<lambda>(i, pi_data). length pi_data - i))" by simp
next
  fix i :: nat and pi_data x2 :: "PiCycleData list"
  assume lt: "i < length pi_data" and b: "step_body i pi_data = Some x2"
  have "length x2 = length pi_data"
    using b by (auto simp: step_body_def vec_upd_def split: if_splits bind_splits)
  then show "((Suc i, x2), (i, pi_data)) \<in> measure (\<lambda>(i, pi_data). length pi_data - i)"
    using lt by simp
qed

declare step_loop.simps [simp del]

function offset_loop :: "nat \<Rightarrow> PiCycleData list \<Rightarrow> PiCycleData list option" where
  "offset_loop i pi_data =
     (if i < length pi_data then
        (case offset_body i pi_data of
           None \<Rightarrow> None
         | Some pi_data' \<Rightarrow> offset_loop (Suc i) pi_data')
      else Some pi_data)"
  by pat_completeness auto
termination
proof (relation "measure (\<lambda>(i, pi_data). length pi_data - i)")
  show "wf (measure (\<lambda>(i, pi_data). length pi_data - i))" by simp
next
  fix i :: nat and pi_data x2 :: "PiCycleData list"
  assume lt: "i < length pi_data" and b: "offset_body i pi_data = Some x2"
  have "length x2 = length pi_data"
    using b by (auto simp: offset_body_def vec_upd_def split: if_splits bind_splits)
  then show "((Suc i, x2), (i, pi_data)) \<in> measure (\<lambda>(i, pi_data). length pi_data - i)"
    using lt by simp
qed

declare offset_loop.simps [simp del]

function weeks_52_loop :: "nat \<Rightarrow> PiCycleData list \<Rightarrow> PiCycleData list option" where
  "weeks_52_loop i pi_data =
     (if i < length pi_data then
        (case weeks_52_body i pi_data of
           None \<Rightarrow> None
         | Some pi_data' \<Rightarrow> weeks_52_loop (Suc i) pi_data')
      else Some pi_data)"
  by pat_completeness auto
termination
proof (relation "measure (\<lambda>(i, pi_data). length pi_data - i)")
  show "wf (measure (\<lambda>(i, pi_data). length pi_data - i))" by simp
next
  fix i :: nat and pi_data x2 :: "PiCycleData list"
  assume lt: "i < length pi_data" and b: "weeks_52_body i pi_data = Some x2"
  have "length x2 = length pi_data"
    using b by (auto simp: weeks_52_body_def vec_upd_def split: if_splits bind_splits)
  then show "((Suc i, x2), (i, pi_data)) \<in> measure (\<lambda>(i, pi_data). length pi_data - i)"
    using lt by simp
qed

declare weeks_52_loop.simps [simp del]

text \<open>\<^verbatim>\<open>add_calculated_fields(pi_data, num_display_days)\<close>: the four loops in turn, the
  first from index 1. The second parameter is never read.\<close>

definition add_calculated_fields :: "PiCycleData list \<Rightarrow> int \<Rightarrow> PiCycleData list option" where
  "add_calculated_fields pi_data num_display_days =
     do {
       pi_data \<leftarrow> change_loop 1 pi_data;
       pi_data \<leftarrow> step_loop 0 pi_data;
       pi_data \<leftarrow> offset_loop 0 pi_data;
       weeks_52_loop 0 pi_data
     }"

text \<open>The two calls of \<^verbatim>\<open>main\<close>:
  \<^verbatim>\<open>pi_data = price_projection(klines, ...); pi_data = add_calculated_fields(pi_data, ...)\<close>.\<close>

definition engine :: "Kline list \<Rightarrow> real \<Rightarrow> int \<Rightarrow> PiCycleData list option" where
  "engine klines yearly_multiplier num_display_days =
     do {
       pi_data \<leftarrow> price_projection klines yearly_multiplier;
       add_calculated_fields pi_data num_display_days
     }"

subsection \<open>\<^verbatim>\<open>display_public\<close>: the row colours and the globals\<close>

datatype color =
    COLOR_BRIGHT_GREEN | COLOR_GREEN | COLOR_DARK_GREEN
  | COLOR_YELLOW_GREEN | COLOR_YELLOW | COLOR_YELLOW_RED
  | COLOR_DARK_RED | COLOR_RED | COLOR_BRIGHT_RED
  | COLOR_RESET

text \<open>The colour of one row: the body of the loop over the rows, up to the formatting.\<close>

definition row_color :: "PiCycleData \<Rightarrow> color" where
  "row_color row =
     (let median_threshold = median row * 0.02 in
      if \<bar>price row - median row\<bar> \<le> median_threshold then
        (if price row > median row then COLOR_YELLOW_GREEN
         else if price row < median row then COLOR_YELLOW_RED
         else COLOR_YELLOW)
      else if price row \<ge> median row then
        (let range_above = ceiling_f row - median row;
             percentage_above =
               (if range_above > 0 then (price row - median row) / range_above else 0)
         in if percentage_above \<ge> 0.575 then COLOR_BRIGHT_GREEN
            else if percentage_above \<ge> 0.29 then COLOR_GREEN
            else COLOR_DARK_GREEN)
      else
        (let range_below = median row - floor_f row;
             percentage_below =
               (if range_below > 0 then (median row - price row) / range_below else 0)
         in if percentage_below \<ge> 0.575 then COLOR_BRIGHT_RED
            else if percentage_below \<ge> 0.29 then COLOR_RED
            else COLOR_DARK_RED))"

text \<open>The global variables of the program.\<close>

record globals =
  first_row_yearly_value :: real
  first_row_baseline :: real
  first_row_avg_price :: real
  first_row_step :: real

definition globals_init :: globals where
  "globals_init =
     \<lparr>first_row_yearly_value = 0, first_row_baseline = 0, first_row_avg_price = 0,
      first_row_step = 0\<rparr>"

text \<open>\<^verbatim>\<open>display_public(pi_data_reversed)\<close>: the globals it leaves and the colour it prints
  each row in.\<close>

definition display_public :: "PiCycleData list \<Rightarrow> globals \<Rightarrow> color list \<times> globals" where
  "display_public pi_data_reversed g =
     (let g' =
        (case pi_data_reversed of
           [] \<Rightarrow> g
         | first_row # _ \<Rightarrow>
             g\<lparr>first_row_yearly_value := weeks_52 first_row,
               first_row_baseline := median first_row,
               first_row_step := step first_row,
               first_row_avg_price := price first_row\<rparr>)
      in (map row_color pi_data_reversed, g'))"

subsection \<open>\<^verbatim>\<open>prediction_target_step\<close>: the projection\<close>

definition RANGE :: nat where
  "RANGE = 30"

text \<open>\<^verbatim>\<open>for (int i = 0; i < RANGE && i < pi_data_reversed.size(); ++i) {
    sum_top_steps += pi_data_reversed[i].step; count_top_steps++; }\<close>\<close>

function top_steps_loop ::
  "PiCycleData list \<Rightarrow> nat \<Rightarrow> real \<Rightarrow> nat \<Rightarrow> (real \<times> nat) option" where
  "top_steps_loop pi_data_reversed i sum_top_steps count_top_steps =
     (if i < RANGE \<and> i < length pi_data_reversed then
        (case vec_at pi_data_reversed i of
           None \<Rightarrow> None
         | Some r \<Rightarrow>
             top_steps_loop pi_data_reversed (Suc i) (sum_top_steps + step r)
               (Suc count_top_steps))
      else Some (sum_top_steps, count_top_steps))"
  by pat_completeness auto
termination
  by (relation "measure (\<lambda>(rs, i, s, c). RANGE - i)") auto

declare top_steps_loop.simps [simp del]

record prediction =
  average_top_steps :: real
  predicted_price_2025 :: real
  predicted_price_4w :: real

text \<open>\<^verbatim>\<open>prediction_target_step(pi_data_reversed)\<close>. The number of days to the end of 2025
  comes from the clock and is a parameter here; the result is the three numbers the
  function prints.\<close>

definition prediction_target_step ::
  "PiCycleData list \<Rightarrow> int \<Rightarrow> globals \<Rightarrow> prediction option" where
  "prediction_target_step pi_data_reversed days_until_2025 g =
     do {
       (sum_top_steps, count_top_steps) \<leftarrow> top_steps_loop pi_data_reversed 0 0 0;
       let average_top_steps =
             (if count_top_steps > 0 then sum_top_steps / real count_top_steps else 0);
       Some \<lparr>average_top_steps = average_top_steps,
             predicted_price_2025 =
               first_row_baseline g + average_top_steps * real_of_int days_until_2025,
             predicted_price_4w = first_row_baseline g + average_top_steps * real RANGE\<rparr>
     }"

subsection \<open>\<^verbatim>\<open>main\<close>: the order of the calls\<close>

text \<open>The end of \<^verbatim>\<open>main\<close>: the most recent \<^verbatim>\<open>num_display_days\<close> rows, most recent first,
  are displayed and then projected from.\<close>

definition last_rows_reversed :: "PiCycleData list \<Rightarrow> nat \<Rightarrow> PiCycleData list" where
  "last_rows_reversed pi_data num_display_days =
     rev (if length pi_data > num_display_days
          then drop (length pi_data - num_display_days) pi_data
          else pi_data)"

definition report :: "PiCycleData list \<Rightarrow> int \<Rightarrow> globals \<Rightarrow> prediction option" where
  "report pi_data_reversed days_until_2025 g =
     (let (colors, g') = display_public pi_data_reversed g
      in prediction_target_step pi_data_reversed days_until_2025 g')"

section \<open>Auxiliary definitions\<close>

text \<open>Nothing in this section is translated from the source.\<close>

subsection \<open>What one iteration of each loop does to its row\<close>

text \<open>The effect of the loop bodies above, in closed form; the lemmas of the next section
  prove that the loops compute them.\<close>

definition window_mean :: "Kline list \<Rightarrow> nat \<Rightarrow> real" where
  "window_mean klines i = (\<Sum>k = i - 364..i. price (klines ! k)) / 365"

definition window_std :: "Kline list \<Rightarrow> nat \<Rightarrow> real" where
  "window_std klines i =
     sqrt ((\<Sum>k = i - 364..i. (price (klines ! k) - window_mean klines i)\<^sup>2) / 365)"

definition projected_row :: "Kline list \<Rightarrow> nat \<Rightarrow> PiCycleData \<Rightarrow> PiCycleData" where
  "projected_row klines i r =
     (if 364 \<le> i then
        r\<lparr>date := date (klines ! i), price := price (klines ! i),
          ma_365 := window_mean klines i,
          std_365 := window_std klines i,
          ceiling_f := window_mean klines i + 2 * window_std klines i,
          floor_f := window_mean klines i,
          median := (window_mean klines i + 2 * window_std klines i + window_mean klines i) / 2\<rparr>
      else r\<lparr>date := date (klines ! i), price := price (klines ! i)\<rparr>)"

definition change_row :: "real \<Rightarrow> PiCycleData \<Rightarrow> PiCycleData" where
  "change_row prev_price r =
     (if prev_price \<noteq> 0 then
        r\<lparr>change := price r - prev_price,
          move := (price r - prev_price) / prev_price * 100\<rparr>
      else r\<lparr>change := price r - prev_price\<rparr>)"

definition change_window_sum :: "PiCycleData list \<Rightarrow> nat \<Rightarrow> real" where
  "change_window_sum pi_data i = (\<Sum>m = 0..<364. change (pi_data ! (i - m)))"

definition step_row :: "PiCycleData list \<Rightarrow> nat \<Rightarrow> PiCycleData \<Rightarrow> PiCycleData" where
  "step_row pi_data i r =
     (if 364 \<le> i then
        r\<lparr>dynamic_step := change_window_sum pi_data i / 364,
          step := change_window_sum pi_data i / 364\<rparr>
      else r\<lparr>step := dynamic_step r\<rparr>)"

definition offset_row :: "PiCycleData \<Rightarrow> PiCycleData" where
  "offset_row r =
     (if median r \<noteq> 0 then r\<lparr>offset := ((price r - median r) / median r) * 100\<rparr> else r)"

definition weeks_52_row :: "real \<Rightarrow> PiCycleData \<Rightarrow> PiCycleData" where
  "weeks_52_row old_price r =
     (if old_price \<noteq> 0 then r\<lparr>weeks_52 := ((price r - old_price) / old_price) * 100\<rparr> else r)"

subsection \<open>The zone classifier of the specification\<close>

text \<open>The zone classifier in the words of the specification, on the four numbers it reads.
  The nine zones of the specification are the nine colours of the source, from
  \<^verbatim>\<open>COLOR_BRIGHT_GREEN\<close> (topmost above the median) to \<^verbatim>\<open>COLOR_BRIGHT_RED\<close> (bottommost
  below it).\<close>

definition zone_spec :: "real \<Rightarrow> real \<Rightarrow> real \<Rightarrow> real \<Rightarrow> color" where
  "zone_spec p m c f =
     (if \<bar>p - m\<bar> \<le> 0.02 * m then
        (if p - m > 0 then COLOR_YELLOW_GREEN
         else if p - m < 0 then COLOR_YELLOW_RED
         else COLOR_YELLOW)
      else if p \<ge> m then
        (let frac = (if c > m then (p - m) / (c - m) else 0)
         in if frac \<ge> 0.575 then COLOR_BRIGHT_GREEN
            else if frac \<ge> 0.29 then COLOR_GREEN
            else COLOR_DARK_GREEN)
      else
        (let frac = (if m > f then (m - p) / (m - f) else 0)
         in if frac \<ge> 0.575 then COLOR_BRIGHT_RED
            else if frac \<ge> 0.29 then COLOR_RED
            else COLOR_DARK_RED))"

text \<open>The nine-level scale, from the top, and its mirror image.\<close>

definition zone_scale :: "color list" where
  "zone_scale =
     [COLOR_BRIGHT_GREEN, COLOR_GREEN, COLOR_DARK_GREEN,
      COLOR_YELLOW_GREEN, COLOR_YELLOW, COLOR_YELLOW_RED,
      COLOR_DARK_RED, COLOR_RED, COLOR_BRIGHT_RED]"

fun mirror :: "color \<Rightarrow> color" where
  "mirror COLOR_BRIGHT_GREEN = COLOR_BRIGHT_RED"
| "mirror COLOR_GREEN = COLOR_RED"
| "mirror COLOR_DARK_GREEN = COLOR_DARK_RED"
| "mirror COLOR_YELLOW_GREEN = COLOR_YELLOW_RED"
| "mirror COLOR_YELLOW = COLOR_YELLOW"
| "mirror COLOR_YELLOW_RED = COLOR_YELLOW_GREEN"
| "mirror COLOR_DARK_RED = COLOR_DARK_GREEN"
| "mirror COLOR_RED = COLOR_GREEN"
| "mirror COLOR_BRIGHT_RED = COLOR_BRIGHT_GREEN"
| "mirror COLOR_RESET = COLOR_RESET"

text \<open>The two synthetic rows of the symmetry property, at the relative distance \<open>t\<close> above
  and below the median of a row, and the test of the 2% band, as the source writes it.\<close>

definition row_above :: "PiCycleData \<Rightarrow> real \<Rightarrow> PiCycleData" where
  "row_above row t = row\<lparr>price := median row + t * (ceiling_f row - median row)\<rparr>"

definition row_below :: "PiCycleData \<Rightarrow> real \<Rightarrow> PiCycleData" where
  "row_below row t = row\<lparr>price := median row - t * (median row - floor_f row)\<rparr>"

definition near_median :: "PiCycleData \<Rightarrow> bool" where
  "near_median row \<longleftrightarrow> \<bar>price row - median row\<bar> \<le> median row * 0.02"

subsection \<open>Example inputs\<close>

text \<open>Price sequences: a flat year of 365 days at 100; 364 days at 100 followed by one day
  at 130; and 364 days at 100, one day short of a window.\<close>

definition flat_year :: "Kline list" where
  "flat_year = replicate 365 \<lparr>date = [], price = 100\<rparr>"

definition scenario_B :: "Kline list" where
  "scenario_B = replicate 364 \<lparr>date = [], price = 100\<rparr> @ [\<lparr>date = [], price = 130\<rparr>]"

definition short_year :: "Kline list" where
  "short_year = replicate 364 \<lparr>date = [], price = 100\<rparr>"

text \<open>Rows as \<^verbatim>\<open>price_projection\<close> leaves them before the window fills: 364 days at 100
  followed by one day at 130, every other field at its initial 0. And three rows with a
  zero price and a zero median among them.\<close>

definition scenario_B_rows :: "PiCycleData list" where
  "scenario_B_rows =
     replicate 364 (PiCycleData_init\<lparr>price := 100\<rparr>) @ [PiCycleData_init\<lparr>price := 130\<rparr>]"

definition three_rows :: "PiCycleData list" where
  "three_rows =
     [PiCycleData_init\<lparr>price := 0\<rparr>,
      PiCycleData_init\<lparr>price := 50\<rparr>,
      PiCycleData_init\<lparr>price := 60, median := 40\<rparr>]"

text \<open>Rows with a degenerate band (ceiling, median and floor all 100), one priced above
  and one below; and a row with the band 95, 100, 110.\<close>

definition flat_band_above :: PiCycleData where
  "flat_band_above =
     PiCycleData_init\<lparr>price := 130, ceiling_f := 100, floor_f := 100, median := 100\<rparr>"

definition flat_band_below :: PiCycleData where
  "flat_band_below =
     PiCycleData_init\<lparr>price := 70, ceiling_f := 100, floor_f := 100, median := 100\<rparr>"

definition band_row :: PiCycleData where
  "band_row = PiCycleData_init\<lparr>price := 100, ceiling_f := 110, floor_f := 95, median := 100\<rparr>"

text \<open>Ten rows, most recent first, with the steps 1 to 10 and the median 100.\<close>

definition ten_rows :: "PiCycleData list" where
  "ten_rows =
     map (\<lambda>s. PiCycleData_init\<lparr>median := 100, step := s\<rparr>) [1, 2, 3, 4, 5, 6, 7, 8, 9, 10]"

section \<open>The loops and their closed forms\<close>

lemma vec_at_Some [simp]: "i < length xs \<Longrightarrow> vec_at xs i = Some (xs ! i)"
  by (simp add: vec_at_def)

lemma vec_at_sub_Some [simp]: "j \<le> i \<Longrightarrow> i - j < length xs \<Longrightarrow> vec_at_sub xs i j = Some (xs ! (i - j))"
  by (simp add: vec_at_sub_def)

lemma vec_upd_Some [simp]: "i < length xs \<Longrightarrow> vec_upd xs i f = Some (xs[i := f (xs ! i)])"
  by (simp add: vec_upd_def)

lemma sum_price_loop_eq:
  "i < length klines \<Longrightarrow> j \<le> Suc i \<Longrightarrow>
   sum_price_loop klines i j s = Some (s + (\<Sum>k = j..i. price (klines ! k)))"
proof (induction klines i j s rule: sum_price_loop.induct)
  case (1 klines i j s)
  show ?case
  proof (cases "j \<le> i")
    case True
    then have at: "vec_at klines j = Some (klines ! j)"
      using "1.prems" by simp
    have "sum_price_loop klines i j s = sum_price_loop klines i (Suc j) (s + price (klines ! j))"
      using True at by (subst sum_price_loop.simps) simp
    also have "\<dots> = Some (s + price (klines ! j) + (\<Sum>k = Suc j..i. price (klines ! k)))"
      using "1.IH" [OF True at] "1.prems" True by simp
    also have "s + price (klines ! j) + (\<Sum>k = Suc j..i. price (klines ! k)) =
               s + (\<Sum>k = j..i. price (klines ! k))"
      using True by (simp add: sum.atLeast_Suc_atMost)
    finally show ?thesis .
  next
    case False
    then show ?thesis
      by (subst sum_price_loop.simps) simp
  qed
qed

lemma sum_sq_diff_loop_eq:
  "i < length klines \<Longrightarrow> i < length pi_data \<Longrightarrow> j \<le> Suc i \<Longrightarrow>
   sum_sq_diff_loop klines pi_data i j s =
     Some (s + (\<Sum>k = j..i. (price (klines ! k) - ma_365 (pi_data ! i))\<^sup>2))"
proof (induction klines pi_data i j s rule: sum_sq_diff_loop.induct)
  case (1 klines pi_data i j s)
  show ?case
  proof (cases "j \<le> i")
    case True
    then have at: "vec_at klines j = Some (klines ! j)"
      using "1.prems" by simp
    have at': "vec_at pi_data i = Some (pi_data ! i)"
      using "1.prems" by simp
    have "sum_sq_diff_loop klines pi_data i j s =
          sum_sq_diff_loop klines pi_data i (Suc j)
            (s + (price (klines ! j) - ma_365 (pi_data ! i))\<^sup>2)"
      using True at at' by (subst sum_sq_diff_loop.simps) simp
    also have "\<dots> = Some (s + (price (klines ! j) - ma_365 (pi_data ! i))\<^sup>2 +
                 (\<Sum>k = Suc j..i. (price (klines ! k) - ma_365 (pi_data ! i))\<^sup>2))"
      using "1.IH" [OF True at at'] "1.prems" True by simp
    also have "s + (price (klines ! j) - ma_365 (pi_data ! i))\<^sup>2 +
                 (\<Sum>k = Suc j..i. (price (klines ! k) - ma_365 (pi_data ! i))\<^sup>2) =
               s + (\<Sum>k = j..i. (price (klines ! k) - ma_365 (pi_data ! i))\<^sup>2)"
      using True by (simp add: sum.atLeast_Suc_atMost)
    finally show ?thesis .
  next
    case False
    then show ?thesis
      by (subst sum_sq_diff_loop.simps) simp
  qed
qed

lemma window_stats_eq:
  assumes "i < length klines" "i < length pi_data"
  shows "window_stats klines i pi_data =
     Some (pi_data[i := (pi_data ! i)
        \<lparr>ma_365 := window_mean klines i,
          std_365 := window_std klines i,
          ceiling_f := window_mean klines i + 2 * window_std klines i,
          floor_f := window_mean klines i,
          median := (window_mean klines i + 2 * window_std klines i + window_mean klines i) / 2\<rparr>])"
  using assms
  by (simp add: window_stats_def sum_price_loop_eq sum_sq_diff_loop_eq window_mean_def
      window_std_def)

lemma price_projection_body_eq:
  assumes "i < length klines" "i < length pi_data"
  shows "price_projection_body klines i pi_data =
     Some (pi_data[i := projected_row klines i (pi_data ! i)])"
  using assms
  by (simp add: price_projection_body_def window_stats_eq projected_row_def)

lemma price_projection_loop_rows:
  "length pi_data = length klines \<Longrightarrow>
   \<exists>out. price_projection_loop klines i pi_data = Some out \<and> length out = length klines \<and>
     (\<forall>k<length klines. out ! k =
        (if i \<le> k then projected_row klines k (pi_data ! k) else pi_data ! k))"
proof (induction klines i pi_data rule: price_projection_loop.induct)
  case (1 klines i pi_data)
  show ?case
  proof (cases "i < length klines")
    case True
    let ?pd = "pi_data[i := projected_row klines i (pi_data ! i)]"
    have body: "price_projection_body klines i pi_data = Some ?pd"
      using True "1.prems" by (simp add: price_projection_body_eq)
    have len: "length ?pd = length klines"
      using "1.prems" by simp
    from "1.IH" [OF True body len] obtain out where
      out: "price_projection_loop klines (Suc i) ?pd = Some out"
        "length out = length klines"
        "\<forall>k<length klines. out ! k =
           (if Suc i \<le> k then projected_row klines k (?pd ! k) else ?pd ! k)"
      by blast
    have "price_projection_loop klines i pi_data = Some out"
      using True body out(1) by (subst price_projection_loop.simps) simp
    moreover have "out ! k = (if i \<le> k then projected_row klines k (pi_data ! k) else pi_data ! k)"
      if "k < length klines" for k
      using out(3) that "1.prems" by (cases "k = i") auto
    ultimately show ?thesis
      using out(2) by blast
  next
    case False
    then show ?thesis
      using "1.prems" by (subst price_projection_loop.simps) simp
  qed
qed

lemma price_projection_eq:
  "price_projection klines yearly_multiplier =
     Some (map (\<lambda>k. projected_row klines k PiCycleData_init) [0..<length klines])"
proof -
  obtain out where
    out: "price_projection_loop klines 0 (replicate (length klines) PiCycleData_init) = Some out"
      "length out = length klines"
      "\<forall>k<length klines. out ! k =
         (if 0 \<le> k then projected_row klines k (replicate (length klines) PiCycleData_init ! k)
          else replicate (length klines) PiCycleData_init ! k)"
    using price_projection_loop_rows [of "replicate (length klines) PiCycleData_init" klines 0]
    by auto
  have "out = map (\<lambda>k. projected_row klines k PiCycleData_init) [0..<length klines]"
    using out(2,3) by (intro nth_equalityI) simp_all
  then show ?thesis
    using out(1) by (simp add: price_projection_def)
qed

lemma change_body_eq:
  assumes "1 \<le> i" "i < length pi_data"
  shows "change_body i pi_data =
     Some (pi_data[i := change_row (price (pi_data ! (i - 1))) (pi_data ! i)])"
  using assms by (simp add: change_body_def change_row_def)

lemma price_change_row [simp]: "price (change_row p r) = price r"
  by (simp add: change_row_def)

lemma change_loop_rows:
  "1 \<le> i \<Longrightarrow>
   \<exists>out. change_loop i pi_data = Some out \<and> length out = length pi_data \<and>
     (\<forall>k<length pi_data. out ! k =
        (if i \<le> k then change_row (price (pi_data ! (k - 1))) (pi_data ! k) else pi_data ! k))"
proof (induction i pi_data rule: change_loop.induct)
  case (1 i pi_data)
  show ?case
  proof (cases "i < length pi_data")
    case True
    let ?pd = "pi_data[i := change_row (price (pi_data ! (i - 1))) (pi_data ! i)]"
    have body: "change_body i pi_data = Some ?pd"
      using True "1.prems" by (simp add: change_body_eq)
    have "1 \<le> Suc i" by simp
    from "1.IH" [OF True body this] obtain out where
      out: "change_loop (Suc i) ?pd = Some out"
        "length out = length ?pd"
        "\<forall>k<length ?pd. out ! k =
           (if Suc i \<le> k then change_row (price (?pd ! (k - 1))) (?pd ! k) else ?pd ! k)"
      by blast
    have run: "change_loop i pi_data = Some out"
      using True body out(1) by (subst change_loop.simps) simp
    have prices: "price (?pd ! m) = price (pi_data ! m)" if "m < length pi_data" for m
      using that by (cases "m = i") simp_all
    have "out ! k = (if i \<le> k then change_row (price (pi_data ! (k - 1))) (pi_data ! k)
                     else pi_data ! k)"
      if k: "k < length pi_data" for k
    proof (cases "Suc i \<le> k")
      case True
      then have "out ! k = change_row (price (?pd ! (k - 1))) (?pd ! k)"
        using out(3) k by simp
      moreover have "?pd ! k = pi_data ! k"
        using True by simp
      moreover have "price (?pd ! (k - 1)) = price (pi_data ! (k - 1))"
        using prices [of "k - 1"] k by simp
      ultimately show ?thesis
        using True by simp
    next
      case False
      then have "out ! k = ?pd ! k"
        using out(3) k by simp
      then show ?thesis
        using False k by (cases "k = i") simp_all
    qed
    then show ?thesis
      using run out(2) by simp
  next
    case False
    then show ?thesis
      by (subst change_loop.simps) simp
  qed
qed

lemma sum_daily_diff_loop_eq:
  "i < length pi_data \<Longrightarrow> 363 \<le> i \<Longrightarrow> j \<le> 364 \<Longrightarrow>
   sum_daily_diff_loop pi_data i j s =
     Some (s + (\<Sum>m = j..<364. change (pi_data ! (i - m))))"
proof (induction pi_data i j s rule: sum_daily_diff_loop.induct)
  case (1 pi_data i j s)
  show ?case
  proof (cases "j < 364")
    case True
    then have lt: "j < lookback_days_for_step"
      by (simp add: lookback_days_for_step_def)
    have at: "vec_at_sub pi_data i j = Some (pi_data ! (i - j))"
      using True "1.prems" by simp
    have "sum_daily_diff_loop pi_data i j s =
          sum_daily_diff_loop pi_data i (Suc j) (s + change (pi_data ! (i - j)))"
      using lt at by (subst sum_daily_diff_loop.simps) simp
    also have "\<dots> = Some (s + change (pi_data ! (i - j)) +
                 (\<Sum>m = Suc j..<364. change (pi_data ! (i - m))))"
      using "1.IH" [OF lt at] "1.prems" True by simp
    also have "s + change (pi_data ! (i - j)) + (\<Sum>m = Suc j..<364. change (pi_data ! (i - m))) =
               s + (\<Sum>m = j..<364. change (pi_data ! (i - m)))"
      using True by (simp add: sum.atLeast_Suc_lessThan)
    finally show ?thesis .
  next
    case False
    then show ?thesis
      using "1.prems" by (subst sum_daily_diff_loop.simps) (simp add: lookback_days_for_step_def)
  qed
qed

lemma step_body_eq:
  assumes "i < length pi_data"
  shows "step_body i pi_data = Some (pi_data[i := step_row pi_data i (pi_data ! i)])"
  using assms
  by (simp add: step_body_def step_row_def sum_daily_diff_loop_eq change_window_sum_def
      lookback_days_for_step_def)

lemma change_step_row [simp]: "change (step_row pd i r) = change r"
  by (simp add: step_row_def)

lemma change_window_sum_cong:
  "(\<And>m. change (pd' ! m) = change (pd ! m)) \<Longrightarrow> change_window_sum pd' k = change_window_sum pd k"
  by (simp add: change_window_sum_def)

lemma step_row_cong:
  "(\<And>m. change (pd' ! m) = change (pd ! m)) \<Longrightarrow> step_row pd' k r = step_row pd k r"
  using change_window_sum_cong [of pd' pd] by (simp add: step_row_def)

lemma step_loop_rows:
  "\<exists>out. step_loop i pi_data = Some out \<and> length out = length pi_data \<and>
     (\<forall>k<length pi_data. out ! k =
        (if i \<le> k then step_row pi_data k (pi_data ! k) else pi_data ! k))"
proof (induction i pi_data rule: step_loop.induct)
  case (1 i pi_data)
  show ?case
  proof (cases "i < length pi_data")
    case True
    let ?pd = "pi_data[i := step_row pi_data i (pi_data ! i)]"
    have body: "step_body i pi_data = Some ?pd"
      using True by (simp add: step_body_eq)
    from "1.IH" [OF True body] obtain out where
      out: "step_loop (Suc i) ?pd = Some out"
        "length out = length ?pd"
        "\<forall>k<length ?pd. out ! k =
           (if Suc i \<le> k then step_row ?pd k (?pd ! k) else ?pd ! k)"
      by blast
    have run: "step_loop i pi_data = Some out"
      using True body out(1) by (subst step_loop.simps) simp
    have changes: "change (?pd ! m) = change (pi_data ! m)" for m
      using True by (cases "m = i") simp_all
    have "out ! k = (if i \<le> k then step_row pi_data k (pi_data ! k) else pi_data ! k)"
      if k: "k < length pi_data" for k
    proof (cases "Suc i \<le> k")
      case True
      then have "out ! k = step_row ?pd k (?pd ! k)"
        using out(3) k by simp
      also have "\<dots> = step_row pi_data k (?pd ! k)"
        using changes by (rule step_row_cong)
      also have "?pd ! k = pi_data ! k"
        using True by simp
      finally show ?thesis
        using True by simp
    next
      case False
      then have "out ! k = ?pd ! k"
        using out(3) k by simp
      then show ?thesis
        using False k by (cases "k = i") simp_all
    qed
    then show ?thesis
      using run out(2) by simp
  next
    case False
    then show ?thesis
      by (subst step_loop.simps) simp
  qed
qed

lemma offset_body_eq:
  assumes "i < length pi_data"
  shows "offset_body i pi_data = Some (pi_data[i := offset_row (pi_data ! i)])"
  using assms by (simp add: offset_body_def offset_row_def)

lemma offset_loop_rows:
  "\<exists>out. offset_loop i pi_data = Some out \<and> length out = length pi_data \<and>
     (\<forall>k<length pi_data. out ! k = (if i \<le> k then offset_row (pi_data ! k) else pi_data ! k))"
proof (induction i pi_data rule: offset_loop.induct)
  case (1 i pi_data)
  show ?case
  proof (cases "i < length pi_data")
    case True
    let ?pd = "pi_data[i := offset_row (pi_data ! i)]"
    have body: "offset_body i pi_data = Some ?pd"
      using True by (simp add: offset_body_eq)
    from "1.IH" [OF True body] obtain out where
      out: "offset_loop (Suc i) ?pd = Some out"
        "length out = length ?pd"
        "\<forall>k<length ?pd. out ! k = (if Suc i \<le> k then offset_row (?pd ! k) else ?pd ! k)"
      by blast
    have run: "offset_loop i pi_data = Some out"
      using True body out(1) by (subst offset_loop.simps) simp
    have "out ! k = (if i \<le> k then offset_row (pi_data ! k) else pi_data ! k)"
      if k: "k < length pi_data" for k
      using out(3) k by (cases "k = i") simp_all
    then show ?thesis
      using run out(2) by simp
  next
    case False
    then show ?thesis
      by (subst offset_loop.simps) simp
  qed
qed

lemma weeks_52_body_eq:
  assumes "i < length pi_data"
  shows "weeks_52_body i pi_data =
     Some (if 364 \<le> i then pi_data[i := weeks_52_row (price (pi_data ! (i - 364))) (pi_data ! i)]
           else pi_data)"
  using assms by (simp add: weeks_52_body_def weeks_52_row_def)

lemma price_weeks_52_row [simp]: "price (weeks_52_row p r) = price r"
  by (simp add: weeks_52_row_def)

lemma weeks_52_loop_rows:
  "\<exists>out. weeks_52_loop i pi_data = Some out \<and> length out = length pi_data \<and>
     (\<forall>k<length pi_data. out ! k =
        (if i \<le> k \<and> 364 \<le> k then weeks_52_row (price (pi_data ! (k - 364))) (pi_data ! k)
         else pi_data ! k))"
proof (induction i pi_data rule: weeks_52_loop.induct)
  case (1 i pi_data)
  show ?case
  proof (cases "i < length pi_data")
    case True
    let ?pd = "if 364 \<le> i then pi_data[i := weeks_52_row (price (pi_data ! (i - 364))) (pi_data ! i)]
           else pi_data"
    have body: "weeks_52_body i pi_data = Some ?pd"
      using True by (simp add: weeks_52_body_eq)
    from "1.IH" [OF True body] obtain out where
      out: "weeks_52_loop (Suc i) ?pd = Some out"
        "length out = length ?pd"
        "\<forall>k<length ?pd. out ! k =
           (if Suc i \<le> k \<and> 364 \<le> k then weeks_52_row (price (?pd ! (k - 364))) (?pd ! k)
            else ?pd ! k)"
      by blast
    have run: "weeks_52_loop i pi_data = Some out"
      using True body out(1) by (subst weeks_52_loop.simps) simp
    have len: "length ?pd = length pi_data"
      by simp
    have prices: "price (?pd ! m) = price (pi_data ! m)" for m
      using True by (cases "m = i") simp_all
    have "out ! k =
        (if i \<le> k \<and> 364 \<le> k then weeks_52_row (price (pi_data ! (k - 364))) (pi_data ! k)
         else pi_data ! k)"
      if k: "k < length pi_data" for k
    proof (cases "Suc i \<le> k")
      case True
      then have "?pd ! k = pi_data ! k"
        by simp
      moreover have "out ! k =
          (if 364 \<le> k then weeks_52_row (price (?pd ! (k - 364))) (?pd ! k) else ?pd ! k)"
        using out(3) k len True by simp
      ultimately show ?thesis
        using True prices [of "k - 364"] by simp
    next
      case False
      then have "out ! k = ?pd ! k"
        using out(3) k len by simp
      then show ?thesis
        using False k by (cases "k = i") simp_all
    qed
    then show ?thesis
      using run out(2) len by simp
  next
    case False
    then show ?thesis
      by (subst weeks_52_loop.simps) simp
  qed
qed

lemma add_calculated_fields_rows:
  "\<exists>c out.
     add_calculated_fields pi_data num_display_days = Some out \<and>
     length out = length pi_data \<and> length c = length pi_data \<and>
     (\<forall>k<length pi_data.
        c ! k = (if 1 \<le> k then change_row (price (pi_data ! (k - 1))) (pi_data ! k)
                 else pi_data ! k)) \<and>
     (\<forall>k<length pi_data.
        out ! k =
          (if 364 \<le> k
           then weeks_52_row (price (pi_data ! (k - 364))) (offset_row (step_row c k (c ! k)))
           else offset_row (step_row c k (c ! k))))"
proof -
  obtain c where c: "change_loop 1 pi_data = Some c" "length c = length pi_data"
    "\<forall>k<length pi_data. c ! k =
       (if 1 \<le> k then change_row (price (pi_data ! (k - 1))) (pi_data ! k) else pi_data ! k)"
    using change_loop_rows [of 1 pi_data] by auto
  obtain s where s: "step_loop 0 c = Some s" "length s = length c"
    "\<forall>k<length c. s ! k = (if 0 \<le> k then step_row c k (c ! k) else c ! k)"
    using step_loop_rows [of 0 c] by auto
  obtain f where f: "offset_loop 0 s = Some f" "length f = length s"
    "\<forall>k<length s. f ! k = (if 0 \<le> k then offset_row (s ! k) else s ! k)"
    using offset_loop_rows [of 0 s] by auto
  obtain out where out: "weeks_52_loop 0 f = Some out" "length out = length f"
    "\<forall>k<length f. out ! k =
       (if 0 \<le> k \<and> 364 \<le> k then weeks_52_row (price (f ! (k - 364))) (f ! k) else f ! k)"
    using weeks_52_loop_rows [of 0 f] by auto
  have run: "add_calculated_fields pi_data num_display_days = Some out"
    using c(1) s(1) f(1) out(1) by (simp add: add_calculated_fields_def)
  have len: "length out = length pi_data"
    using c(2) s(2) f(2) out(2) by simp
  have fk: "f ! k = offset_row (step_row c k (c ! k))" if "k < length pi_data" for k
    using that c(2) s(2,3) f(3) by simp
  have price_c: "price (c ! k) = price (pi_data ! k)" if "k < length pi_data" for k
    using that c(3) by simp
  have price_f: "price (f ! k) = price (pi_data ! k)" if "k < length pi_data" for k
    using that fk [OF that] price_c [OF that] by (simp add: offset_row_def step_row_def)
  have rows: "\<forall>k<length pi_data. out ! k =
         (if 364 \<le> k
          then weeks_52_row (price (pi_data ! (k - 364))) (offset_row (step_row c k (c ! k)))
          else offset_row (step_row c k (c ! k)))"
  proof (intro allI impI)
    fix k assume k: "k < length pi_data"
    have "k - 364 < length pi_data"
      using k by simp
    then have "price (f ! (k - 364)) = price (pi_data ! (k - 364))"
      by (rule price_f)
    then show "out ! k =
         (if 364 \<le> k
          then weeks_52_row (price (pi_data ! (k - 364))) (offset_row (step_row c k (c ! k)))
          else offset_row (step_row c k (c ! k)))"
      using out(3) k c(2) s(2) f(2) fk [OF k] by simp
  qed
  show ?thesis
    using run len c(2) c(3) rows by blast
qed

lemma window_std_nonneg: "0 \<le> window_std klines i"
  unfolding window_std_def by (intro real_sqrt_ge_zero divide_nonneg_pos sum_nonneg) simp_all

lemma sum_replicate_snoc:
  fixes f :: "'a \<Rightarrow> real"
  shows "(\<Sum>j = 0..n. f ((replicate n a @ [b]) ! j)) = real n * f a + f b"
proof -
  have "(\<Sum>j = 0..n. f ((replicate n a @ [b]) ! j)) =
        (\<Sum>j<n. f ((replicate n a @ [b]) ! j)) + f ((replicate n a @ [b]) ! n)"
    by (simp add: atLeast0AtMost flip: lessThan_Suc_atMost)
  also have "(\<Sum>j<n. f ((replicate n a @ [b]) ! j)) = (\<Sum>j<n. f a)"
    by (intro sum.cong) (simp_all add: nth_append)
  also have "f ((replicate n a @ [b]) ! n) = f b"
    by (simp add: nth_append)
  finally show ?thesis by simp
qed

lemma sum_replicate:
  fixes f :: "'a \<Rightarrow> real"
  shows "(\<Sum>j = 0..n. f (replicate (Suc n) a ! j)) = real (Suc n) * f a"
proof -
  have "(\<Sum>j = 0..n. f (replicate (Suc n) a ! j)) = (\<Sum>j = 0..n. f a)"
    by (intro sum.cong) (simp_all del: replicate_Suc)
  then show ?thesis by simp
qed

lemma window_mean_flat_year: "window_mean flat_year 364 = 100"
  using sum_replicate [of price 364 "\<lparr>date = [], price = 100\<rparr>"]
  by (simp add: window_mean_def flat_year_def)

lemma window_std_flat_year: "window_std flat_year 364 = 0"
  using sum_replicate [of "\<lambda>k. (price k - 100)\<^sup>2" 364 "\<lparr>date = [], price = 100\<rparr>"]
  by (simp add: window_std_def window_mean_flat_year) (simp add: flat_year_def)

lemma window_mean_scenario_B: "window_mean scenario_B 364 = 7306 / 73"
  using sum_replicate_snoc [of price 364 "\<lparr>date = [], price = 100\<rparr>" "\<lparr>date = [], price = 130\<rparr>"]
  by (simp add: window_mean_def scenario_B_def)

lemma window_std_scenario_B: "window_std scenario_B 364 = sqrt (4782960 / 1945085)"
  using sum_replicate_snoc [of "\<lambda>k. (price k - 7306 / 73)\<^sup>2" 364
      "\<lparr>date = [], price = 100\<rparr>" "\<lparr>date = [], price = 130\<rparr>"]
  by (simp add: window_std_def window_mean_scenario_B) (simp add: scenario_B_def power2_eq_square)

lemma window_std_scenario_B_gt: "1 < window_std scenario_B 364"
  by (simp add: window_std_scenario_B)

lemma midpoint_eq: "(m + 2 * s + m) / 2 = m + (s::real)"
  by (simp add: field_simps)

lemma projected_row_window:
  "364 \<le> i \<Longrightarrow>
   ma_365 (projected_row klines i r) = window_mean klines i \<and>
   std_365 (projected_row klines i r) = window_std klines i \<and>
   ceiling_f (projected_row klines i r) = window_mean klines i + 2 * window_std klines i \<and>
   floor_f (projected_row klines i r) = window_mean klines i \<and>
   median (projected_row klines i r) = window_mean klines i + window_std klines i"
  by (simp add: projected_row_def midpoint_eq)

lemma projected_row_early:
  "\<not> 364 \<le> i \<Longrightarrow>
   projected_row klines i r = r\<lparr>date := date (klines ! i), price := price (klines ! i)\<rparr>"
  by (simp add: projected_row_def)

lemma length_scenario_B [simp]: "length scenario_B = 365"
  by (simp add: scenario_B_def)

lemma price_projection_scenario_B:
  "price_projection scenario_B yearly_multiplier = Some pi_data \<Longrightarrow>
   ma_365 (pi_data ! 364) = 7306 / 73 \<and>
   std_365 (pi_data ! 364) = window_std scenario_B 364 \<and>
   ceiling_f (pi_data ! 364) = 7306 / 73 + 2 * window_std scenario_B 364 \<and>
   median (pi_data ! 364) = 7306 / 73 + window_std scenario_B 364"
  by (auto simp: price_projection_eq projected_row_window window_mean_scenario_B)

lemma sum_window_reindex:
  fixes f :: "nat \<Rightarrow> real"
  assumes "363 \<le> i"
  shows "(\<Sum>m = 0..<364. f (i - m)) = (\<Sum>j = i - 363..i. f j)"
  by (rule sum.reindex_bij_witness [of _ "\<lambda>j. i - j" "\<lambda>m. i - m"]) (use assms in auto)

lemma change_row_fields [simp]:
  "date (change_row p r) = date r" "ma_365 (change_row p r) = ma_365 r"
  "std_365 (change_row p r) = std_365 r" "ceiling_f (change_row p r) = ceiling_f r"
  "floor_f (change_row p r) = floor_f r" "median (change_row p r) = median r"
  "dynamic_step (change_row p r) = dynamic_step r" "step (change_row p r) = step r"
  "offset (change_row p r) = offset r" "weeks_52 (change_row p r) = weeks_52 r"
  "change (change_row p r) = price r - p"
  "move (change_row p r) = (if p \<noteq> 0 then (price r - p) / p * 100 else move r)"
  by (simp_all add: change_row_def)

lemma step_row_fields [simp]:
  "date (step_row c i r) = date r" "price (step_row c i r) = price r"
  "ma_365 (step_row c i r) = ma_365 r"
  "std_365 (step_row c i r) = std_365 r" "ceiling_f (step_row c i r) = ceiling_f r"
  "floor_f (step_row c i r) = floor_f r" "median (step_row c i r) = median r"
  "move (step_row c i r) = move r"
  "offset (step_row c i r) = offset r" "weeks_52 (step_row c i r) = weeks_52 r"
  "dynamic_step (step_row c i r) =
     (if 364 \<le> i then change_window_sum c i / 364 else dynamic_step r)"
  "step (step_row c i r) = dynamic_step (step_row c i r)"
  by (simp_all add: step_row_def)

lemma offset_row_fields [simp]:
  "date (offset_row r) = date r" "price (offset_row r) = price r"
  "ma_365 (offset_row r) = ma_365 r"
  "std_365 (offset_row r) = std_365 r" "ceiling_f (offset_row r) = ceiling_f r"
  "floor_f (offset_row r) = floor_f r" "median (offset_row r) = median r"
  "dynamic_step (offset_row r) = dynamic_step r" "step (offset_row r) = step r"
  "change (offset_row r) = change r" "move (offset_row r) = move r"
  "weeks_52 (offset_row r) = weeks_52 r"
  "offset (offset_row r) =
     (if median r \<noteq> 0 then ((price r - median r) / median r) * 100 else offset r)"
  by (simp_all add: offset_row_def)

lemma weeks_52_row_fields [simp]:
  "date (weeks_52_row p r) = date r"
  "ma_365 (weeks_52_row p r) = ma_365 r"
  "std_365 (weeks_52_row p r) = std_365 r" "ceiling_f (weeks_52_row p r) = ceiling_f r"
  "floor_f (weeks_52_row p r) = floor_f r" "median (weeks_52_row p r) = median r"
  "dynamic_step (weeks_52_row p r) = dynamic_step r" "step (weeks_52_row p r) = step r"
  "change (weeks_52_row p r) = change r" "move (weeks_52_row p r) = move r"
  "offset (weeks_52_row p r) = offset r"
  "weeks_52 (weeks_52_row p r) = (if p \<noteq> 0 then ((price r - p) / p) * 100 else weeks_52 r)"
  by (simp_all add: weeks_52_row_def)

lemma add_calculated_fields_fields:
  "\<exists>out.
     add_calculated_fields pi_data num_display_days = Some out \<and>
     length out = length pi_data \<and>
     (\<forall>k<length pi_data.
       date (out ! k) = date (pi_data ! k) \<and> price (out ! k) = price (pi_data ! k) \<and>
       ma_365 (out ! k) = ma_365 (pi_data ! k) \<and> std_365 (out ! k) = std_365 (pi_data ! k) \<and>
       ceiling_f (out ! k) = ceiling_f (pi_data ! k) \<and> floor_f (out ! k) = floor_f (pi_data ! k) \<and>
       median (out ! k) = median (pi_data ! k)) \<and>
     (\<forall>k<length pi_data.
       change (out ! k) =
         (if 1 \<le> k then price (pi_data ! k) - price (pi_data ! (k - 1))
          else change (pi_data ! k))) \<and>
     (\<forall>k<length pi_data.
       move (out ! k) =
         (if 1 \<le> k \<and> price (pi_data ! (k - 1)) \<noteq> 0
          then (price (pi_data ! k) - price (pi_data ! (k - 1))) / price (pi_data ! (k - 1)) * 100
          else move (pi_data ! k))) \<and>
     (\<forall>k<length pi_data.
       dynamic_step (out ! k) =
         (if 364 \<le> k then (\<Sum>j = k - 363..k. change (out ! j)) / 364
          else dynamic_step (pi_data ! k))) \<and>
     (\<forall>k<length pi_data. step (out ! k) = dynamic_step (out ! k)) \<and>
     (\<forall>k<length pi_data.
       offset (out ! k) =
         (if median (pi_data ! k) \<noteq> 0
          then ((price (pi_data ! k) - median (pi_data ! k)) / median (pi_data ! k)) * 100
          else offset (pi_data ! k))) \<and>
     (\<forall>k<length pi_data.
       weeks_52 (out ! k) =
         (if 364 \<le> k \<and> price (pi_data ! (k - 364)) \<noteq> 0
          then ((price (pi_data ! k) - price (pi_data ! (k - 364))) / price (pi_data ! (k - 364))) * 100
          else weeks_52 (pi_data ! k)))"
proof -
  obtain c out where
    run: "add_calculated_fields pi_data num_display_days = Some out" and
    len: "length out = length pi_data" "length c = length pi_data" and
    c': "\<forall>k<length pi_data.
       c ! k = (if 1 \<le> k then change_row (price (pi_data ! (k - 1))) (pi_data ! k)
                else pi_data ! k)" and
    out': "\<forall>k<length pi_data.
       out ! k =
         (if 364 \<le> k
          then weeks_52_row (price (pi_data ! (k - 364))) (offset_row (step_row c k (c ! k)))
          else offset_row (step_row c k (c ! k)))"
    using add_calculated_fields_rows [of pi_data num_display_days] by blast
  note c = c' [rule_format] and out = out' [rule_format]
  have kept: "\<forall>k<length pi_data.
       date (out ! k) = date (pi_data ! k) \<and> price (out ! k) = price (pi_data ! k) \<and>
       ma_365 (out ! k) = ma_365 (pi_data ! k) \<and> std_365 (out ! k) = std_365 (pi_data ! k) \<and>
       ceiling_f (out ! k) = ceiling_f (pi_data ! k) \<and> floor_f (out ! k) = floor_f (pi_data ! k) \<and>
       median (out ! k) = median (pi_data ! k)"
    using out c by simp
  have chg_c: "change (out ! k) = change (c ! k)" if "k < length pi_data" for k
    using out [OF that] by simp
  have chg: "\<forall>k<length pi_data.
       change (out ! k) =
         (if 1 \<le> k then price (pi_data ! k) - price (pi_data ! (k - 1))
          else change (pi_data ! k))"
    using chg_c c by simp
  have mv: "\<forall>k<length pi_data.
       move (out ! k) =
         (if 1 \<le> k \<and> price (pi_data ! (k - 1)) \<noteq> 0
          then (price (pi_data ! k) - price (pi_data ! (k - 1))) / price (pi_data ! (k - 1)) * 100
          else move (pi_data ! k))"
    using out c by simp
  have dyn_c: "dynamic_step (out ! k) =
         (if 364 \<le> k then change_window_sum c k / 364 else dynamic_step (pi_data ! k))"
    if "k < length pi_data" for k
    using out [OF that] c [OF that]
    by simp
  have win: "change_window_sum c k = (\<Sum>j = k - 363..k. change (out ! j))"
    if "k < length pi_data" "364 \<le> k" for k
  proof -
    have "change_window_sum c k = (\<Sum>j = k - 363..k. change (c ! j))"
      unfolding change_window_sum_def using that(2) by (intro sum_window_reindex) simp
    also have "\<dots> = (\<Sum>j = k - 363..k. change (out ! j))"
      using that(1) by (intro sum.cong) (simp_all add: chg_c)
    finally show ?thesis .
  qed
  have dyn: "\<forall>k<length pi_data.
       dynamic_step (out ! k) =
         (if 364 \<le> k then (\<Sum>j = k - 363..k. change (out ! j)) / 364
          else dynamic_step (pi_data ! k))"
    using dyn_c win by simp
  have stp: "\<forall>k<length pi_data. step (out ! k) = dynamic_step (out ! k)"
    using out by simp
  have off: "\<forall>k<length pi_data.
       offset (out ! k) =
         (if median (pi_data ! k) \<noteq> 0
          then ((price (pi_data ! k) - median (pi_data ! k)) / median (pi_data ! k)) * 100
          else offset (pi_data ! k))"
    using out c by simp
  have wk: "\<forall>k<length pi_data.
       weeks_52 (out ! k) =
         (if 364 \<le> k \<and> price (pi_data ! (k - 364)) \<noteq> 0
          then ((price (pi_data ! k) - price (pi_data ! (k - 364))) / price (pi_data ! (k - 364))) * 100
          else weeks_52 (pi_data ! k))"
    using out c by simp
  show ?thesis
    by (intro exI [of _ out] conjI) (fact run len(1) kept chg mv dyn stp off wk)+
qed

lemma engine_fields:
  "\<exists>pi_data out.
     price_projection klines yearly_multiplier = Some pi_data \<and>
     add_calculated_fields pi_data num_display_days = Some out \<and>
     engine klines yearly_multiplier num_display_days = Some out \<and>
     length pi_data = length klines \<and> length out = length klines \<and>
     (\<forall>k<length klines. pi_data ! k = projected_row klines k PiCycleData_init) \<and>
     (\<forall>k<length klines.
        ma_365 (out ! k) = ma_365 (pi_data ! k) \<and> std_365 (out ! k) = std_365 (pi_data ! k) \<and>
        ceiling_f (out ! k) = ceiling_f (pi_data ! k) \<and>
        floor_f (out ! k) = floor_f (pi_data ! k) \<and>
        median (out ! k) = median (pi_data ! k)) \<and>
     (\<forall>k<length klines.
        weeks_52 (out ! k) =
          (if 364 \<le> k \<and> price (pi_data ! (k - 364)) \<noteq> 0
           then ((price (pi_data ! k) - price (pi_data ! (k - 364))) / price (pi_data ! (k - 364))) * 100
           else weeks_52 (pi_data ! k)))"
proof -
  let ?pd = "map (\<lambda>k. projected_row klines k PiCycleData_init) [0..<length klines]"
  have pp: "price_projection klines yearly_multiplier = Some ?pd"
    by (rule price_projection_eq)
  have len: "length ?pd = length klines"
    by simp
  from add_calculated_fields_fields [of ?pd num_display_days] obtain out where
    out: "add_calculated_fields ?pd num_display_days = Some out"
      "length out = length ?pd"
      "\<forall>k<length ?pd.
        date (out ! k) = date (?pd ! k) \<and> price (out ! k) = price (?pd ! k) \<and>
        ma_365 (out ! k) = ma_365 (?pd ! k) \<and> std_365 (out ! k) = std_365 (?pd ! k) \<and>
        ceiling_f (out ! k) = ceiling_f (?pd ! k) \<and> floor_f (out ! k) = floor_f (?pd ! k) \<and>
        median (out ! k) = median (?pd ! k)"
      "\<forall>k<length ?pd.
        weeks_52 (out ! k) =
          (if 364 \<le> k \<and> price (?pd ! (k - 364)) \<noteq> 0
           then ((price (?pd ! k) - price (?pd ! (k - 364))) / price (?pd ! (k - 364))) * 100
           else weeks_52 (?pd ! k))"
    by blast
  have eng: "engine klines yearly_multiplier num_display_days = Some out"
    using pp out(1) by (simp add: engine_def)
  have rows: "\<forall>k<length klines. ?pd ! k = projected_row klines k PiCycleData_init"
    by simp
  have kept: "\<forall>k<length klines.
        ma_365 (out ! k) = ma_365 (?pd ! k) \<and> std_365 (out ! k) = std_365 (?pd ! k) \<and>
        ceiling_f (out ! k) = ceiling_f (?pd ! k) \<and>
        floor_f (out ! k) = floor_f (?pd ! k) \<and>
        median (out ! k) = median (?pd ! k)"
    using out(3) unfolding len by blast
  have len': "length out = length klines"
    using out(2) by simp
  show ?thesis
    by (intro exI [of _ ?pd] exI [of _ out] conjI)
      (fact pp out(1) eng len len' rows kept out(4) [unfolded len])+
qed

lemma length_short_year [simp]: "length short_year = 364"
  by (simp add: short_year_def)

lemma length_scenario_B_rows [simp]: "length scenario_B_rows = 365"
  by (simp add: scenario_B_rows_def)

lemma price_scenario_B_rows:
  "j < 365 \<Longrightarrow> price (scenario_B_rows ! j) = (if j < 364 then 100 else 130)"
  by (auto simp: scenario_B_rows_def nth_append PiCycleData_init_def)

lemma init_scenario_B_rows:
  "j < 365 \<Longrightarrow> dynamic_step (scenario_B_rows ! j) = 0 \<and> move (scenario_B_rows ! j) = 0 \<and>
     offset (scenario_B_rows ! j) = 0 \<and> weeks_52 (scenario_B_rows ! j) = 0 \<and>
     median (scenario_B_rows ! j) = 0"
  by (auto simp: scenario_B_rows_def nth_append PiCycleData_init_def)

lemma three_rows_fields:
  "length three_rows = 3"
  "price (three_rows ! 0) = 0" "price (three_rows ! Suc 0) = 50" "price (three_rows ! 2) = 60"
  "median (three_rows ! Suc 0) = 0" "median (three_rows ! 2) = 40"
  "move (three_rows ! 0) = 0" "move (three_rows ! Suc 0) = 0" "move (three_rows ! 2) = 0"
  "offset (three_rows ! Suc 0) = 0" "offset (three_rows ! 2) = 0"
  "weeks_52 (three_rows ! 2) = 0"
  by (simp_all add: three_rows_def PiCycleData_init_def)

lemma mirror_reverses_scale: "map mirror zone_scale = rev zone_scale"
  by (simp add: zone_scale_def)

lemma row_color_above:
  assumes "ceiling_f row > median row" and "price row = median row + t * (ceiling_f row - median row)"
    and "0 \<le> t" and "\<not> near_median row"
  shows "row_color row =
     (if t \<ge> 0.575 then COLOR_BRIGHT_GREEN else if t \<ge> 0.29 then COLOR_GREEN
      else COLOR_DARK_GREEN)"
proof -
  have ge: "price row \<ge> median row"
    using assms(1,2,3) by simp
  have "(price row - median row) / (ceiling_f row - median row) = t"
    using assms(1,2) by simp
  then show ?thesis
    using assms(1,4) ge by (simp add: row_color_def Let_def near_median_def)
qed

lemma row_color_below:
  assumes "median row > floor_f row" and "price row = median row - t * (median row - floor_f row)"
    and "0 < t" and "\<not> near_median row"
  shows "row_color row =
     (if t \<ge> 0.575 then COLOR_BRIGHT_RED else if t \<ge> 0.29 then COLOR_RED
      else COLOR_DARK_RED)"
proof -
  have "t * (median row - floor_f row) > 0"
    using assms(1,3) by simp
  then have lt: "price row < median row"
    using assms(2) by simp
  have "(median row - price row) / (median row - floor_f row) = t"
    using assms(1,2) by simp
  then show ?thesis
    using assms(1,4) lt by (simp add: row_color_def Let_def near_median_def)
qed

lemma row_above_fields [simp]:
  "price (row_above row t) = median row + t * (ceiling_f row - median row)"
  "median (row_above row t) = median row" "ceiling_f (row_above row t) = ceiling_f row"
  "floor_f (row_above row t) = floor_f row"
  by (simp_all add: row_above_def)

lemma row_below_fields [simp]:
  "price (row_below row t) = median row - t * (median row - floor_f row)"
  "median (row_below row t) = median row" "ceiling_f (row_below row t) = ceiling_f row"
  "floor_f (row_below row t) = floor_f row"
  by (simp_all add: row_below_def)

lemma top_steps_loop_eq:
  "i \<le> min RANGE (length rs) \<Longrightarrow>
   top_steps_loop rs i s c =
     Some (s + (\<Sum>k = i..<min RANGE (length rs). step (rs ! k)), c + (min RANGE (length rs) - i))"
proof (induction rs i s c rule: top_steps_loop.induct)
  case (1 rs i s c)
  show ?case
  proof (cases "i < RANGE \<and> i < length rs")
    case True
    then have at: "vec_at rs i = Some (rs ! i)"
      by simp
    have "top_steps_loop rs i s c = top_steps_loop rs (Suc i) (s + step (rs ! i)) (Suc c)"
      using True at by (subst top_steps_loop.simps) simp
    also have "\<dots> = Some (s + step (rs ! i) + (\<Sum>k = Suc i..<min RANGE (length rs). step (rs ! k)),
                 Suc c + (min RANGE (length rs) - Suc i))"
      using "1.IH" [OF True at] True by simp
    also have "s + step (rs ! i) + (\<Sum>k = Suc i..<min RANGE (length rs). step (rs ! k)) =
               s + (\<Sum>k = i..<min RANGE (length rs). step (rs ! k))"
      using True by (simp add: sum.atLeast_Suc_lessThan)
    also have "Suc c + (min RANGE (length rs) - Suc i) = c + (min RANGE (length rs) - i)"
      using True by (auto simp: min_def)
    finally show ?thesis .
  next
    case False
    then have m: "min RANGE (length rs) = i"
      using "1.prems" by auto
    have "top_steps_loop rs i s c = Some (s, c)"
      by (subst top_steps_loop.simps) (rule if_not_P [OF False])
    then show ?thesis
      by (simp add: m)
  qed
qed

lemma sum_nth_take:
  fixes f :: "'a \<Rightarrow> real"
  shows "(\<Sum>k = 0..<min n (length xs). f (xs ! k)) = sum_list (map f (take n xs))"
proof -
  have "sum_list (map f (take n xs)) = (\<Sum>k = 0..<length (take n xs). f (take n xs ! k))"
    by (simp add: sum_list_sum_nth)
  also have "\<dots> = (\<Sum>k = 0..<min n (length xs). f (xs ! k))"
    by (intro sum.cong) (simp_all add: min.commute)
  finally show ?thesis by simp
qed

lemma prediction_target_step_eq:
  "prediction_target_step rs days g =
     Some \<lparr>average_top_steps =
             (if rs = [] then 0
              else sum_list (map step (take 30 rs)) / real (min 30 (length rs))),
           predicted_price_2025 =
             first_row_baseline g +
             (if rs = [] then 0
              else sum_list (map step (take 30 rs)) / real (min 30 (length rs))) * real_of_int days,
           predicted_price_4w =
             first_row_baseline g +
             (if rs = [] then 0
              else sum_list (map step (take 30 rs)) / real (min 30 (length rs))) * 30\<rparr>"
proof -
  have loop: "top_steps_loop rs 0 0 0 =
      Some (sum_list (map step (take 30 rs)), min 30 (length rs))"
    using top_steps_loop_eq [of 0 rs 0 0] sum_nth_take [where f = step and n = 30 and xs = rs]
    by (simp add: RANGE_def)
  show ?thesis
    unfolding prediction_target_step_def loop
    by (cases "rs = []") (simp_all add: RANGE_def)
qed

lemma projected_row_unset:
  "price (projected_row klines k PiCycleData_init) = price (klines ! k)"
  "dynamic_step (projected_row klines k PiCycleData_init) = 0"
  "step (projected_row klines k PiCycleData_init) = 0"
  "change (projected_row klines k PiCycleData_init) = 0"
  "move (projected_row klines k PiCycleData_init) = 0"
  "offset (projected_row klines k PiCycleData_init) = 0"
  "weeks_52 (projected_row klines k PiCycleData_init) = 0"
  by (simp_all add: projected_row_def PiCycleData_init_def)

lemma price_scenario_B:
  "j < 365 \<Longrightarrow> price (scenario_B ! j) = (if j < 364 then 100 else 130)"
  by (auto simp: scenario_B_def nth_append)

lemma dynamic_step_fields:
  "\<exists>out.
     add_calculated_fields pi_data num_display_days = Some out \<and>
     length out = length pi_data \<and>
     (\<forall>i<length pi_data. 364 \<le> i \<longrightarrow>
        dynamic_step (out ! i) = (\<Sum>j = i - 363..i. change (out ! j)) / 364) \<and>
     (\<forall>i<length pi_data. i < 364 \<longrightarrow> dynamic_step (pi_data ! i) = 0 \<longrightarrow>
        dynamic_step (out ! i) = 0) \<and>
     (\<forall>i<length pi_data. step (out ! i) = dynamic_step (out ! i)) \<and>
     (\<forall>j<length pi_data. 1 \<le> j \<longrightarrow>
        change (out ! j) = price (pi_data ! j) - price (pi_data ! (j - 1)))"
proof -
  from add_calculated_fields_fields [of pi_data num_display_days] obtain out where
    run: "add_calculated_fields pi_data num_display_days = Some out" and
    len: "length out = length pi_data" and
    chg: "\<forall>k<length pi_data.
       change (out ! k) =
         (if 1 \<le> k then price (pi_data ! k) - price (pi_data ! (k - 1))
          else change (pi_data ! k))" and
    dyn: "\<forall>k<length pi_data.
       dynamic_step (out ! k) =
         (if 364 \<le> k then (\<Sum>j = k - 363..k. change (out ! j)) / 364
          else dynamic_step (pi_data ! k))" and
    stp: "\<forall>k<length pi_data. step (out ! k) = dynamic_step (out ! k)"
    by blast
  have a: "\<forall>i<length pi_data. 364 \<le> i \<longrightarrow>
        dynamic_step (out ! i) = (\<Sum>j = i - 363..i. change (out ! j)) / 364"
    using dyn by simp
  have b: "\<forall>i<length pi_data. i < 364 \<longrightarrow> dynamic_step (pi_data ! i) = 0 \<longrightarrow>
        dynamic_step (out ! i) = 0"
    using dyn by simp
  have c: "\<forall>j<length pi_data. 1 \<le> j \<longrightarrow>
        change (out ! j) = price (pi_data ! j) - price (pi_data ! (j - 1))"
    using chg by simp
  show ?thesis
    by (intro exI [of _ out] conjI) (fact run len a b stp c)+
qed

lemma percentage_fields:
  "\<exists>out.
     add_calculated_fields pi_data num_display_days = Some out \<and>
     length out = length pi_data \<and>
     (\<forall>i<length pi_data.
        price (out ! i) = price (pi_data ! i) \<and> median (out ! i) = median (pi_data ! i)) \<and>
     (\<forall>i<length pi_data. move (pi_data ! i) = 0 \<longrightarrow>
        move (out ! i) =
          (if i = 0 \<or> price (out ! (i - 1)) = 0 then 0
           else (price (out ! i) - price (out ! (i - 1))) / price (out ! (i - 1)) * 100)) \<and>
     (\<forall>i<length pi_data. offset (pi_data ! i) = 0 \<longrightarrow>
        offset (out ! i) =
          (if median (out ! i) = 0 then 0
           else (price (out ! i) - median (out ! i)) / median (out ! i) * 100)) \<and>
     (\<forall>i<length pi_data. weeks_52 (pi_data ! i) = 0 \<longrightarrow>
        weeks_52 (out ! i) =
          (if i < 364 \<or> price (out ! (i - 364)) = 0 then 0
           else (price (out ! i) - price (out ! (i - 364))) / price (out ! (i - 364)) * 100))"
proof -
  from add_calculated_fields_fields [of pi_data num_display_days] obtain out where
    run: "add_calculated_fields pi_data num_display_days = Some out" and
    len: "length out = length pi_data" and
    kept: "\<forall>k<length pi_data.
       date (out ! k) = date (pi_data ! k) \<and> price (out ! k) = price (pi_data ! k) \<and>
       ma_365 (out ! k) = ma_365 (pi_data ! k) \<and> std_365 (out ! k) = std_365 (pi_data ! k) \<and>
       ceiling_f (out ! k) = ceiling_f (pi_data ! k) \<and> floor_f (out ! k) = floor_f (pi_data ! k) \<and>
       median (out ! k) = median (pi_data ! k)" and
    mv: "\<forall>k<length pi_data.
       move (out ! k) =
         (if 1 \<le> k \<and> price (pi_data ! (k - 1)) \<noteq> 0
          then (price (pi_data ! k) - price (pi_data ! (k - 1))) / price (pi_data ! (k - 1)) * 100
          else move (pi_data ! k))" and
    off: "\<forall>k<length pi_data.
       offset (out ! k) =
         (if median (pi_data ! k) \<noteq> 0
          then ((price (pi_data ! k) - median (pi_data ! k)) / median (pi_data ! k)) * 100
          else offset (pi_data ! k))" and
    wk: "\<forall>k<length pi_data.
       weeks_52 (out ! k) =
         (if 364 \<le> k \<and> price (pi_data ! (k - 364)) \<noteq> 0
          then ((price (pi_data ! k) - price (pi_data ! (k - 364))) / price (pi_data ! (k - 364))) * 100
          else weeks_52 (pi_data ! k))"
    by blast
  have pr: "price (out ! k) = price (pi_data ! k)" if "k < length pi_data" for k
    using kept that by simp
  have md: "median (out ! k) = median (pi_data ! k)" if "k < length pi_data" for k
    using kept that by simp
  have a: "\<forall>i<length pi_data.
        price (out ! i) = price (pi_data ! i) \<and> median (out ! i) = median (pi_data ! i)"
    using pr md by simp
  have b: "\<forall>i<length pi_data. move (pi_data ! i) = 0 \<longrightarrow>
        move (out ! i) =
          (if i = 0 \<or> price (out ! (i - 1)) = 0 then 0
           else (price (out ! i) - price (out ! (i - 1))) / price (out ! (i - 1)) * 100)"
  proof (intro allI impI)
    fix i assume i: "i < length pi_data" and z: "move (pi_data ! i) = 0"
    have "i - 1 < length pi_data"
      using i by simp
    then show "move (out ! i) =
          (if i = 0 \<or> price (out ! (i - 1)) = 0 then 0
           else (price (out ! i) - price (out ! (i - 1))) / price (out ! (i - 1)) * 100)"
      using mv [rule_format, OF i] z pr [OF i] pr [of "i - 1"] by auto
  qed
  have c: "\<forall>i<length pi_data. offset (pi_data ! i) = 0 \<longrightarrow>
        offset (out ! i) =
          (if median (out ! i) = 0 then 0
           else (price (out ! i) - median (out ! i)) / median (out ! i) * 100)"
  proof (intro allI impI)
    fix i assume i: "i < length pi_data" and z: "offset (pi_data ! i) = 0"
    show "offset (out ! i) =
          (if median (out ! i) = 0 then 0
           else (price (out ! i) - median (out ! i)) / median (out ! i) * 100)"
      using off [rule_format, OF i] z pr [OF i] md [OF i] by auto
  qed
  have d: "\<forall>i<length pi_data. weeks_52 (pi_data ! i) = 0 \<longrightarrow>
        weeks_52 (out ! i) =
          (if i < 364 \<or> price (out ! (i - 364)) = 0 then 0
           else (price (out ! i) - price (out ! (i - 364))) / price (out ! (i - 364)) * 100)"
  proof (intro allI impI)
    fix i assume i: "i < length pi_data" and z: "weeks_52 (pi_data ! i) = 0"
    have "i - 364 < length pi_data"
      using i by simp
    then show "weeks_52 (out ! i) =
          (if i < 364 \<or> price (out ! (i - 364)) = 0 then 0
           else (price (out ! i) - price (out ! (i - 364))) / price (out ! (i - 364)) * 100)"
      using wk [rule_format, OF i] z pr [OF i] pr [of "i - 364"] by auto
  qed
  show ?thesis
    by (intro exI [of _ out] conjI) (fact run len a b c d)+
qed

section \<open>The claims\<close>

text \<open>
  C1. The postcondition of the window statistics: for every price sequence and every
  zero-based index \<open>i \<ge> 364\<close>, \<^verbatim>\<open>price_projection\<close> returns, and its row \<open>i\<close> has
  \<^verbatim>\<open>ma_365\<close> the arithmetic mean of the 365 prices \<open>i - 364, \<dots>, i\<close>, \<^verbatim>\<open>std_365\<close> the square
  root of the sum of the squared deviations from that mean divided by 365 (the population
  estimator), \<^verbatim>\<open>ceiling\<close> the mean plus twice the deviation, \<^verbatim>\<open>floor\<close> the mean, and
  \<^verbatim>\<open>median\<close> the midpoint of ceiling and floor.
\<close>

theorem window_statistics:
  assumes "i < length klines" and "364 \<le> i"
  shows "\<exists>pi_data. price_projection klines yearly_multiplier = Some pi_data \<and>
     length pi_data = length klines \<and>
     ma_365 (pi_data ! i) = (\<Sum>j = i - 364..i. price (klines ! j)) / 365 \<and>
     std_365 (pi_data ! i) =
       sqrt ((\<Sum>j = i - 364..i. (price (klines ! j) - ma_365 (pi_data ! i))\<^sup>2) / 365) \<and>
     ceiling_f (pi_data ! i) = ma_365 (pi_data ! i) + 2 * std_365 (pi_data ! i) \<and>
     floor_f (pi_data ! i) = ma_365 (pi_data ! i) \<and>
     median (pi_data ! i) = (ceiling_f (pi_data ! i) + floor_f (pi_data ! i)) / 2"
  using assms
  by (simp add: price_projection_eq projected_row_def window_mean_def window_std_def)

theorem window_statistics_witness:
  "364 < length flat_year \<and> 364 < length scenario_B \<and> (364::nat) \<le> 364 \<and>
   (\<exists>pi_data. price_projection flat_year 1 = Some pi_data \<and>
     length pi_data = 365 \<and>
     ma_365 (pi_data ! 364) = 100 \<and>
     std_365 (pi_data ! 364) = 0 \<and>
     ceiling_f (pi_data ! 364) = 100 \<and>
     floor_f (pi_data ! 364) = 100 \<and>
     median (pi_data ! 364) = 100) \<and>
   (\<exists>pi_data. price_projection scenario_B 1 = Some pi_data \<and>
     length pi_data = 365 \<and>
     ma_365 (pi_data ! 364) = 7306 / 73 \<and>
     std_365 (pi_data ! 364) = sqrt (4782960 / 1945085) \<and>
     ceiling_f (pi_data ! 364) = 7306 / 73 + 2 * sqrt (4782960 / 1945085) \<and>
     floor_f (pi_data ! 364) = 7306 / 73 \<and>
     median (pi_data ! 364) = 7306 / 73 + sqrt (4782960 / 1945085))"
proof -
  have len: "364 < length flat_year"
    by (simp add: flat_year_def)
  from window_statistics [OF len order_refl, of 1] obtain pi_data where
    pd: "price_projection flat_year 1 = Some pi_data"
      "length pi_data = length flat_year"
      "ma_365 (pi_data ! 364) = (\<Sum>j = 364 - 364..364. price (flat_year ! j)) / 365"
      "std_365 (pi_data ! 364) =
         sqrt ((\<Sum>j = 364 - 364..364. (price (flat_year ! j) - ma_365 (pi_data ! 364))\<^sup>2) / 365)"
      "ceiling_f (pi_data ! 364) = ma_365 (pi_data ! 364) + 2 * std_365 (pi_data ! 364)"
      "floor_f (pi_data ! 364) = ma_365 (pi_data ! 364)"
      "median (pi_data ! 364) = (ceiling_f (pi_data ! 364) + floor_f (pi_data ! 364)) / 2"
    by blast
  have ma: "ma_365 (pi_data ! 364) = 100"
    using pd(3) window_mean_flat_year by (simp add: window_mean_def)
  have std: "std_365 (pi_data ! 364) = 0"
    using pd(4) window_std_flat_year by (simp add: window_std_def ma window_mean_flat_year)
  have flat: "\<exists>pi_data. price_projection flat_year 1 = Some pi_data \<and>
     length pi_data = 365 \<and>
     ma_365 (pi_data ! 364) = 100 \<and>
     std_365 (pi_data ! 364) = 0 \<and>
     ceiling_f (pi_data ! 364) = 100 \<and>
     floor_f (pi_data ! 364) = 100 \<and>
     median (pi_data ! 364) = 100"
    using pd(1,2,5,6,7) ma std by (simp add: flat_year_def)
  have len': "364 < length scenario_B"
    by simp
  from window_statistics [OF len' order_refl, of 1] obtain pi_data' where
    pd': "price_projection scenario_B 1 = Some pi_data'"
      "length pi_data' = length scenario_B"
      "ma_365 (pi_data' ! 364) = (\<Sum>j = 364 - 364..364. price (scenario_B ! j)) / 365"
      "std_365 (pi_data' ! 364) =
         sqrt ((\<Sum>j = 364 - 364..364. (price (scenario_B ! j) - ma_365 (pi_data' ! 364))\<^sup>2) / 365)"
      "ceiling_f (pi_data' ! 364) = ma_365 (pi_data' ! 364) + 2 * std_365 (pi_data' ! 364)"
      "floor_f (pi_data' ! 364) = ma_365 (pi_data' ! 364)"
      "median (pi_data' ! 364) = (ceiling_f (pi_data' ! 364) + floor_f (pi_data' ! 364)) / 2"
    by blast
  have ma': "ma_365 (pi_data' ! 364) = 7306 / 73"
    using pd'(3) window_mean_scenario_B by (simp add: window_mean_def)
  have std': "std_365 (pi_data' ! 364) = sqrt (4782960 / 1945085)"
    using pd'(4) window_std_scenario_B
    by (simp add: window_std_def ma' window_mean_scenario_B)
  have year: "\<exists>pi_data. price_projection scenario_B 1 = Some pi_data \<and>
     length pi_data = 365 \<and>
     ma_365 (pi_data ! 364) = 7306 / 73 \<and>
     std_365 (pi_data ! 364) = sqrt (4782960 / 1945085) \<and>
     ceiling_f (pi_data ! 364) = 7306 / 73 + 2 * sqrt (4782960 / 1945085) \<and>
     floor_f (pi_data ! 364) = 7306 / 73 \<and>
     median (pi_data ! 364) = 7306 / 73 + sqrt (4782960 / 1945085)"
    using pd'(1,2,5,6,7) ma' std' by (simp add: midpoint_eq)
  show ?thesis
    using len len' flat year by simp
qed

text \<open>
  C2. Claimed: for every index \<open>i \<ge> 364\<close> the row has \<^verbatim>\<open>median == ma_365\<close> and
  \<^verbatim>\<open>ceiling - median == 2 * std_365\<close>, up to a relative tolerance of \<open>10\<^sup>-\<^sup>9\<close>. The code sets
  the floor to the mean and the median to the midpoint of ceiling and floor, so the median
  lies one standard deviation above the mean. On 364 days at 100 followed by one day at 130
  both equations fail at row 364, by far more than the tolerance.
\<close>

theorem median_is_mean_counterexample:
  "price_projection scenario_B 1 \<noteq> None \<and>
   \<not> \<bar>median (the (price_projection scenario_B 1) ! 364) -
        ma_365 (the (price_projection scenario_B 1) ! 364)\<bar>
       \<le> 1 / 10 ^ 9 * \<bar>ma_365 (the (price_projection scenario_B 1) ! 364)\<bar> \<and>
   \<not> \<bar>(ceiling_f (the (price_projection scenario_B 1) ! 364) -
         median (the (price_projection scenario_B 1) ! 364)) -
        2 * std_365 (the (price_projection scenario_B 1) ! 364)\<bar>
       \<le> 1 / 10 ^ 9 * \<bar>2 * std_365 (the (price_projection scenario_B 1) ! 364)\<bar>"
proof -
  obtain pi_data where run: "price_projection scenario_B 1 = Some pi_data"
    by (simp add: price_projection_eq)
  note row = price_projection_scenario_B [OF run]
  have s: "1 < window_std scenario_B 364"
    by (rule window_std_scenario_B_gt)
  have "\<not> \<bar>median (pi_data ! 364) - ma_365 (pi_data ! 364)\<bar>
          \<le> 1 / 10 ^ 9 * \<bar>ma_365 (pi_data ! 364)\<bar>"
    using row s by simp
  moreover have "\<not> \<bar>(ceiling_f (pi_data ! 364) - median (pi_data ! 364)) - 2 * std_365 (pi_data ! 364)\<bar>
          \<le> 1 / 10 ^ 9 * \<bar>2 * std_365 (pi_data ! 364)\<bar>"
    using row s by simp
  ultimately show ?thesis
    unfolding run option.sel by simp
qed

text \<open>
  C2, amended. For every index \<open>i \<ge> 364\<close> the row has \<^verbatim>\<open>median == ma_365 + std_365\<close> and
  \<^verbatim>\<open>ceiling - median == std_365\<close>, up to a relative tolerance of \<open>10\<^sup>-\<^sup>9\<close>. With the doubles
  taken as reals both equations hold exactly, and so within the tolerance.
\<close>

theorem median_is_mean_plus_std:
  assumes "i < length klines" and "364 \<le> i"
  shows "\<exists>pi_data. price_projection klines yearly_multiplier = Some pi_data \<and>
     \<bar>median (pi_data ! i) - (ma_365 (pi_data ! i) + std_365 (pi_data ! i))\<bar>
       \<le> 1 / 10 ^ 9 * \<bar>ma_365 (pi_data ! i) + std_365 (pi_data ! i)\<bar> \<and>
     \<bar>(ceiling_f (pi_data ! i) - median (pi_data ! i)) - std_365 (pi_data ! i)\<bar>
       \<le> 1 / 10 ^ 9 * \<bar>std_365 (pi_data ! i)\<bar> \<and>
     median (pi_data ! i) = ma_365 (pi_data ! i) + std_365 (pi_data ! i) \<and>
     ceiling_f (pi_data ! i) - median (pi_data ! i) = std_365 (pi_data ! i)"
  using assms by (simp add: price_projection_eq projected_row_window)

theorem median_is_mean_plus_std_witness:
  "364 < length scenario_B \<and> (364::nat) \<le> 364 \<and>
   (\<exists>pi_data. price_projection scenario_B 1 = Some pi_data \<and>
      \<bar>median (pi_data ! 364) - (ma_365 (pi_data ! 364) + std_365 (pi_data ! 364))\<bar>
        \<le> 1 / 10 ^ 9 * \<bar>ma_365 (pi_data ! 364) + std_365 (pi_data ! 364)\<bar> \<and>
      \<bar>(ceiling_f (pi_data ! 364) - median (pi_data ! 364)) - std_365 (pi_data ! 364)\<bar>
        \<le> 1 / 10 ^ 9 * \<bar>std_365 (pi_data ! 364)\<bar> \<and>
      median (pi_data ! 364) = 7306 / 73 + sqrt (4782960 / 1945085) \<and>
      ceiling_f (pi_data ! 364) - median (pi_data ! 364) = sqrt (4782960 / 1945085))"
proof -
  have len: "364 < length scenario_B"
    by simp
  from median_is_mean_plus_std [OF len order_refl, of 1] obtain pi_data where
    pd: "price_projection scenario_B 1 = Some pi_data"
      "\<bar>median (pi_data ! 364) - (ma_365 (pi_data ! 364) + std_365 (pi_data ! 364))\<bar>
        \<le> 1 / 10 ^ 9 * \<bar>ma_365 (pi_data ! 364) + std_365 (pi_data ! 364)\<bar>"
      "\<bar>(ceiling_f (pi_data ! 364) - median (pi_data ! 364)) - std_365 (pi_data ! 364)\<bar>
        \<le> 1 / 10 ^ 9 * \<bar>std_365 (pi_data ! 364)\<bar>"
      "median (pi_data ! 364) = ma_365 (pi_data ! 364) + std_365 (pi_data ! 364)"
      "ceiling_f (pi_data ! 364) - median (pi_data ! 364) = std_365 (pi_data ! 364)"
    by blast
  note row = price_projection_scenario_B [OF pd(1)]
  have vals: "median (pi_data ! 364) = 7306 / 73 + sqrt (4782960 / 1945085)"
    "ceiling_f (pi_data ! 364) - median (pi_data ! 364) = sqrt (4782960 / 1945085)"
    using pd(4,5) row by (simp_all add: window_std_scenario_B)
  show ?thesis
    by (intro conjI exI [of _ pi_data]) (fact len order_refl pd(1,2,3) vals)+
qed

text \<open>
  C3. The sentinel of insufficient history: for every price sequence and every index
  \<open>i < 364\<close>, the row that \<^verbatim>\<open>price_projection\<close> produces, and the row after
  \<^verbatim>\<open>add_calculated_fields\<close>, have \<^verbatim>\<open>ma_365\<close>, \<^verbatim>\<open>std_365\<close>, \<^verbatim>\<open>ceiling\<close>, \<^verbatim>\<open>floor\<close> and
  \<^verbatim>\<open>median\<close> equal to 0, and the finished row has \<^verbatim>\<open>weeks_52\<close> equal to 0 as well. In
  particular, on an input of exactly 364 prices every row of the output has all of these
  fields equal to 0.
\<close>

theorem insufficient_history:
  "\<exists>pi_data out.
     price_projection klines yearly_multiplier = Some pi_data \<and>
     add_calculated_fields pi_data num_display_days = Some out \<and>
     length pi_data = length klines \<and> length out = length klines \<and>
     (\<forall>i<length klines. i < 364 \<longrightarrow>
        ma_365 (pi_data ! i) = 0 \<and> std_365 (pi_data ! i) = 0 \<and>
        ceiling_f (pi_data ! i) = 0 \<and> floor_f (pi_data ! i) = 0 \<and> median (pi_data ! i) = 0 \<and>
        ma_365 (out ! i) = 0 \<and> std_365 (out ! i) = 0 \<and>
        ceiling_f (out ! i) = 0 \<and> floor_f (out ! i) = 0 \<and> median (out ! i) = 0 \<and>
        weeks_52 (out ! i) = 0) \<and>
     (length klines = 364 \<longrightarrow>
        (\<forall>r \<in> set out.
           ma_365 r = 0 \<and> std_365 r = 0 \<and> ceiling_f r = 0 \<and> floor_f r = 0 \<and>
           median r = 0 \<and> weeks_52 r = 0))"
proof -
  obtain pi_data out where
    pp: "price_projection klines yearly_multiplier = Some pi_data" and
    acf: "add_calculated_fields pi_data num_display_days = Some out" and
    len: "length pi_data = length klines" "length out = length klines" and
    rows: "\<forall>k<length klines. pi_data ! k = projected_row klines k PiCycleData_init" and
    kept: "\<forall>k<length klines.
        ma_365 (out ! k) = ma_365 (pi_data ! k) \<and> std_365 (out ! k) = std_365 (pi_data ! k) \<and>
        ceiling_f (out ! k) = ceiling_f (pi_data ! k) \<and>
        floor_f (out ! k) = floor_f (pi_data ! k) \<and>
        median (out ! k) = median (pi_data ! k)" and
    wk: "\<forall>k<length klines.
        weeks_52 (out ! k) =
          (if 364 \<le> k \<and> price (pi_data ! (k - 364)) \<noteq> 0
           then ((price (pi_data ! k) - price (pi_data ! (k - 364))) / price (pi_data ! (k - 364))) * 100
           else weeks_52 (pi_data ! k))"
    using engine_fields [of klines yearly_multiplier num_display_days] by blast
  have early: "ma_365 (pi_data ! i) = 0 \<and> std_365 (pi_data ! i) = 0 \<and>
        ceiling_f (pi_data ! i) = 0 \<and> floor_f (pi_data ! i) = 0 \<and> median (pi_data ! i) = 0 \<and>
        ma_365 (out ! i) = 0 \<and> std_365 (out ! i) = 0 \<and>
        ceiling_f (out ! i) = 0 \<and> floor_f (out ! i) = 0 \<and> median (out ! i) = 0 \<and>
        weeks_52 (out ! i) = 0" if i: "i < length klines" "i < 364" for i
  proof -
    have "pi_data ! i = PiCycleData_init\<lparr>date := date (klines ! i), price := price (klines ! i)\<rparr>"
      using rows i by (simp add: projected_row_early)
    then have pd: "ma_365 (pi_data ! i) = 0 \<and> std_365 (pi_data ! i) = 0 \<and>
        ceiling_f (pi_data ! i) = 0 \<and> floor_f (pi_data ! i) = 0 \<and> median (pi_data ! i) = 0 \<and>
        weeks_52 (pi_data ! i) = 0"
      by (simp add: PiCycleData_init_def)
    moreover have "weeks_52 (out ! i) = weeks_52 (pi_data ! i)"
      using wk i by simp
    ultimately show ?thesis
      using kept i(1) by simp
  qed
  have all: "\<forall>r \<in> set out.
           ma_365 r = 0 \<and> std_365 r = 0 \<and> ceiling_f r = 0 \<and> floor_f r = 0 \<and>
           median r = 0 \<and> weeks_52 r = 0" if "length klines = 364"
  proof
    fix r assume "r \<in> set out"
    then obtain i where "i < length out" "r = out ! i"
      by (auto simp: in_set_conv_nth)
    then show "ma_365 r = 0 \<and> std_365 r = 0 \<and> ceiling_f r = 0 \<and> floor_f r = 0 \<and>
           median r = 0 \<and> weeks_52 r = 0"
      using early [of i] len(2) that by simp
  qed
  show ?thesis
    using pp acf len early all by blast
qed

theorem insufficient_history_witness:
  "length short_year = 364 \<and>
   (\<exists>pi_data out.
     price_projection short_year 1 = Some pi_data \<and>
     add_calculated_fields pi_data 33 = Some out \<and>
     length out = 364 \<and>
     ma_365 (pi_data ! 363) = 0 \<and> median (pi_data ! 363) = 0 \<and>
     ma_365 (out ! 0) = 0 \<and> std_365 (out ! 0) = 0 \<and> ceiling_f (out ! 0) = 0 \<and>
     floor_f (out ! 0) = 0 \<and> median (out ! 0) = 0 \<and> weeks_52 (out ! 0) = 0 \<and>
     ma_365 (out ! 363) = 0 \<and> std_365 (out ! 363) = 0 \<and> ceiling_f (out ! 363) = 0 \<and>
     floor_f (out ! 363) = 0 \<and> median (out ! 363) = 0 \<and> weeks_52 (out ! 363) = 0 \<and>
     ma_365 (last out) = 0 \<and> weeks_52 (last out) = 0)"
proof -
  from insufficient_history [of short_year 1 33] obtain pi_data out where
    h: "price_projection short_year 1 = Some pi_data"
      "add_calculated_fields pi_data 33 = Some out"
      "length out = length short_year"
      "\<forall>i<length short_year. i < 364 \<longrightarrow>
        ma_365 (pi_data ! i) = 0 \<and> std_365 (pi_data ! i) = 0 \<and>
        ceiling_f (pi_data ! i) = 0 \<and> floor_f (pi_data ! i) = 0 \<and> median (pi_data ! i) = 0 \<and>
        ma_365 (out ! i) = 0 \<and> std_365 (out ! i) = 0 \<and>
        ceiling_f (out ! i) = 0 \<and> floor_f (out ! i) = 0 \<and> median (out ! i) = 0 \<and>
        weeks_52 (out ! i) = 0"
      "length short_year = 364 \<longrightarrow>
        (\<forall>r \<in> set out.
           ma_365 r = 0 \<and> std_365 r = 0 \<and> ceiling_f r = 0 \<and> floor_f r = 0 \<and>
           median r = 0 \<and> weeks_52 r = 0)"
    by blast
  have ne: "out \<noteq> []"
    using h(3) by auto
  have "last out \<in> set out"
    using ne by simp
  then have l: "ma_365 (last out) = 0 \<and> weeks_52 (last out) = 0"
    using h(5) by simp
  have a: "(0::nat) < length short_year \<and> (0::nat) < 364"
    and b: "(363::nat) < length short_year \<and> (363::nat) < 364"
    by simp_all
  show ?thesis
    using h(1,2,3) h(4) [rule_format, of 0] h(4) [rule_format, of 363] a b l by auto
qed

text \<open>
  C4. The dynamic step. \<^verbatim>\<open>add_calculated_fields\<close> returns on every row sequence; in its
  result, at every index \<open>i \<ge> 364\<close>, \<^verbatim>\<open>dynamic_step\<close> is the arithmetic mean of the 364
  stored \<^verbatim>\<open>change\<close> fields of the rows \<open>i - 363, \<dots>, i\<close> (the current row included), each
  of which is the difference of the row's price and the price before it; at an index
  \<open>i < 364\<close> a \<^verbatim>\<open>dynamic_step\<close> that enters at its initial 0 is 0; and \<^verbatim>\<open>step\<close> equals
  \<^verbatim>\<open>dynamic_step\<close> at every index. The rows of \<^verbatim>\<open>price_projection\<close> all enter with that
  initial 0, so on every price sequence the two engine calls give the mean from index 364
  on and 0 below it.
\<close>

theorem dynamic_step_postcondition:
  "(\<exists>out.
      add_calculated_fields pi_data num_display_days = Some out \<and>
      length out = length pi_data \<and>
      (\<forall>i<length pi_data. 364 \<le> i \<longrightarrow>
         dynamic_step (out ! i) = (\<Sum>j = i - 363..i. change (out ! j)) / 364) \<and>
      (\<forall>i<length pi_data. i < 364 \<longrightarrow> dynamic_step (pi_data ! i) = 0 \<longrightarrow>
         dynamic_step (out ! i) = 0) \<and>
      (\<forall>i<length pi_data. step (out ! i) = dynamic_step (out ! i)) \<and>
      (\<forall>j<length pi_data. 1 \<le> j \<longrightarrow>
         change (out ! j) = price (pi_data ! j) - price (pi_data ! (j - 1)))) \<and>
   (\<exists>out.
      engine klines yearly_multiplier num_display_days = Some out \<and>
      length out = length klines \<and>
      (\<forall>i<length klines.
         dynamic_step (out ! i) =
           (if 364 \<le> i then (\<Sum>j = i - 363..i. change (out ! j)) / 364 else 0) \<and>
         step (out ! i) = dynamic_step (out ! i)) \<and>
      (\<forall>j<length klines. 1 \<le> j \<longrightarrow>
         change (out ! j) = price (klines ! j) - price (klines ! (j - 1))))"
proof (rule conjI)
  show "\<exists>out.
      add_calculated_fields pi_data num_display_days = Some out \<and>
      length out = length pi_data \<and>
      (\<forall>i<length pi_data. 364 \<le> i \<longrightarrow>
         dynamic_step (out ! i) = (\<Sum>j = i - 363..i. change (out ! j)) / 364) \<and>
      (\<forall>i<length pi_data. i < 364 \<longrightarrow> dynamic_step (pi_data ! i) = 0 \<longrightarrow>
         dynamic_step (out ! i) = 0) \<and>
      (\<forall>i<length pi_data. step (out ! i) = dynamic_step (out ! i)) \<and>
      (\<forall>j<length pi_data. 1 \<le> j \<longrightarrow>
         change (out ! j) = price (pi_data ! j) - price (pi_data ! (j - 1)))"
    by (rule dynamic_step_fields)
next
  let ?pd = "map (\<lambda>k. projected_row klines k PiCycleData_init) [0..<length klines]"
  from dynamic_step_fields [of ?pd num_display_days] obtain out where
    run: "add_calculated_fields ?pd num_display_days = Some out" and
    len: "length out = length ?pd" and
    late: "\<forall>i<length ?pd. 364 \<le> i \<longrightarrow>
         dynamic_step (out ! i) = (\<Sum>j = i - 363..i. change (out ! j)) / 364" and
    early: "\<forall>i<length ?pd. i < 364 \<longrightarrow> dynamic_step (?pd ! i) = 0 \<longrightarrow>
         dynamic_step (out ! i) = 0" and
    stp: "\<forall>i<length ?pd. step (out ! i) = dynamic_step (out ! i)" and
    chg: "\<forall>j<length ?pd. 1 \<le> j \<longrightarrow>
         change (out ! j) = price (?pd ! j) - price (?pd ! (j - 1))"
    by blast
  have eng: "engine klines yearly_multiplier num_display_days = Some out"
    using run by (simp add: engine_def price_projection_eq)
  have len': "length out = length klines"
    using len by simp
  have a: "\<forall>i<length klines.
         dynamic_step (out ! i) =
           (if 364 \<le> i then (\<Sum>j = i - 363..i. change (out ! j)) / 364 else 0) \<and>
         step (out ! i) = dynamic_step (out ! i)"
  proof (intro allI impI)
    fix i assume i: "i < length klines"
    then have i': "i < length ?pd"
      by simp
    have "dynamic_step (?pd ! i) = 0"
      using i by (simp add: projected_row_unset)
    then show "dynamic_step (out ! i) =
           (if 364 \<le> i then (\<Sum>j = i - 363..i. change (out ! j)) / 364 else 0) \<and>
         step (out ! i) = dynamic_step (out ! i)"
      using late [rule_format, OF i'] early [rule_format, OF i'] stp [rule_format, OF i']
      by (cases "364 \<le> i") simp_all
  qed
  have b: "\<forall>j<length klines. 1 \<le> j \<longrightarrow>
         change (out ! j) = price (klines ! j) - price (klines ! (j - 1))"
  proof (intro allI impI)
    fix j assume j: "j < length klines" "1 \<le> j"
    then have j': "j < length ?pd" "j - 1 < length klines"
      by simp_all
    show "change (out ! j) = price (klines ! j) - price (klines ! (j - 1))"
      using chg [rule_format, OF j'(1) j(2)] j j'(2) by (simp add: projected_row_unset)
  qed
  show "\<exists>out.
      engine klines yearly_multiplier num_display_days = Some out \<and>
      length out = length klines \<and>
      (\<forall>i<length klines.
         dynamic_step (out ! i) =
           (if 364 \<le> i then (\<Sum>j = i - 363..i. change (out ! j)) / 364 else 0) \<and>
         step (out ! i) = dynamic_step (out ! i)) \<and>
      (\<forall>j<length klines. 1 \<le> j \<longrightarrow>
         change (out ! j) = price (klines ! j) - price (klines ! (j - 1)))"
    by (intro exI [of _ out] conjI) (fact eng len' a b)+
qed

theorem dynamic_step_postcondition_witness:
  "(\<exists>out. add_calculated_fields scenario_B_rows 33 = Some out \<and>
      dynamic_step (out ! 364) = 30 / 364 \<and> step (out ! 364) = 30 / 364 \<and>
      dynamic_step (out ! 363) = 0 \<and> step (out ! 363) = 0 \<and>
      change (out ! 364) = 30 \<and> change (out ! 363) = 0) \<and>
   (\<exists>out. engine scenario_B 1 33 = Some out \<and>
      dynamic_step (out ! 364) = 30 / 364 \<and> step (out ! 364) = 30 / 364 \<and>
      dynamic_step (out ! 363) = 0 \<and> step (out ! 363) = 0)"
proof (rule conjI)
  from dynamic_step_postcondition [of scenario_B_rows 33 scenario_B 1] obtain out where
    run: "add_calculated_fields scenario_B_rows 33 = Some out" and
    dyn: "\<forall>i<length scenario_B_rows. 364 \<le> i \<longrightarrow>
        dynamic_step (out ! i) = (\<Sum>j = i - 363..i. change (out ! j)) / 364" and
    early: "\<forall>i<length scenario_B_rows. i < 364 \<longrightarrow> dynamic_step (scenario_B_rows ! i) = 0 \<longrightarrow>
        dynamic_step (out ! i) = 0" and
    stp: "\<forall>i<length scenario_B_rows. step (out ! i) = dynamic_step (out ! i)" and
    chg: "\<forall>j<length scenario_B_rows. 1 \<le> j \<longrightarrow>
        change (out ! j) = price (scenario_B_rows ! j) - price (scenario_B_rows ! (j - 1))"
    by blast
  have c: "change (out ! j) = (if j = 364 then 30 else 0)" if "1 \<le> j" "j \<le> 364" for j
  proof -
    have "j < length scenario_B_rows" "j - 1 < 364"
      using that by simp_all
    then show ?thesis
      using chg that by (simp add: price_scenario_B_rows)
  qed
  have "(\<Sum>j = 1..364. change (out ! j)) = (\<Sum>j = 1..364::nat. if j = 364 then 30 else (0::real))"
    by (intro sum.cong) (simp_all add: c)
  also have "\<dots> = 30"
    by simp
  finally have s: "(\<Sum>j = 1..364. change (out ! j)) = 30" .
  have "dynamic_step (out ! 364) = (\<Sum>j = 364 - 363..364. change (out ! j)) / 364"
    using dyn [rule_format, of 364] by simp
  then have "dynamic_step (out ! 364) = 30 / 364"
    using s by simp
  moreover have "dynamic_step (out ! 363) = 0"
    using early [rule_format, of 363] init_scenario_B_rows [of 363] by simp
  ultimately show "\<exists>out. add_calculated_fields scenario_B_rows 33 = Some out \<and>
      dynamic_step (out ! 364) = 30 / 364 \<and> step (out ! 364) = 30 / 364 \<and>
      dynamic_step (out ! 363) = 0 \<and> step (out ! 363) = 0 \<and>
      change (out ! 364) = 30 \<and> change (out ! 363) = 0"
    using run stp c [of 364] c [of 363] by simp
next
  from dynamic_step_postcondition [of scenario_B_rows 33 scenario_B 1] obtain out where
    run: "engine scenario_B 1 33 = Some out" and
    dyn: "\<forall>i<length scenario_B.
         dynamic_step (out ! i) =
           (if 364 \<le> i then (\<Sum>j = i - 363..i. change (out ! j)) / 364 else 0) \<and>
         step (out ! i) = dynamic_step (out ! i)" and
    chg: "\<forall>j<length scenario_B. 1 \<le> j \<longrightarrow>
         change (out ! j) = price (scenario_B ! j) - price (scenario_B ! (j - 1))"
    by blast
  have c: "change (out ! j) = (if j = 364 then 30 else 0)" if "1 \<le> j" "j \<le> 364" for j
  proof -
    have "j < length scenario_B" "j - 1 < 364"
      using that by simp_all
    then show ?thesis
      using chg that by (simp add: price_scenario_B)
  qed
  have "(\<Sum>j = 1..364. change (out ! j)) = (\<Sum>j = 1..364::nat. if j = 364 then 30 else (0::real))"
    by (intro sum.cong) (simp_all add: c)
  also have "\<dots> = 30"
    by simp
  finally have s: "(\<Sum>j = 1..364. change (out ! j)) = 30" .
  have "dynamic_step (out ! 364) = (\<Sum>j = 364 - 363..364. change (out ! j)) / 364"
    using dyn [rule_format, of 364] by simp
  then have "dynamic_step (out ! 364) = 30 / 364"
    using s by simp
  moreover have "dynamic_step (out ! 363) = 0"
    using dyn [rule_format, of 363] by simp
  ultimately show "\<exists>out. engine scenario_B 1 33 = Some out \<and>
      dynamic_step (out ! 364) = 30 / 364 \<and> step (out ! 364) = 30 / 364 \<and>
      dynamic_step (out ! 363) = 0 \<and> step (out ! 363) = 0"
    using run dyn [rule_format, of 364] dyn [rule_format, of 363] by simp
qed

text \<open>
  C5. The policy on division by zero. \<^verbatim>\<open>add_calculated_fields\<close> returns on every row
  sequence. In its result, for a row whose percentage fields enter at their initial 0:
  \<^verbatim>\<open>move\<close> is 0 when the row is the first or the previous price is zero, and otherwise
  \<open>(price[i] - price[i-1]) / price[i-1] * 100\<close>; \<^verbatim>\<open>offset\<close> is 0 when the median is zero, and
  otherwise \<open>(price - median) / median * 100\<close>; \<^verbatim>\<open>weeks_52\<close> is 0 when \<open>i < 364\<close> or the
  price 364 rows back is zero, and otherwise
  \<open>(price[i] - price[i-364]) / price[i-364] * 100\<close>. The rows of \<^verbatim>\<open>price_projection\<close> all
  enter with those fields at 0, so on every price sequence the two engine calls give
  exactly these values.
\<close>

theorem division_by_zero_policy:
  "(\<exists>out.
     add_calculated_fields pi_data num_display_days = Some out \<and>
     length out = length pi_data \<and>
     (\<forall>i<length pi_data.
        price (out ! i) = price (pi_data ! i) \<and> median (out ! i) = median (pi_data ! i)) \<and>
     (\<forall>i<length pi_data. move (pi_data ! i) = 0 \<longrightarrow>
        move (out ! i) =
          (if i = 0 \<or> price (out ! (i - 1)) = 0 then 0
           else (price (out ! i) - price (out ! (i - 1))) / price (out ! (i - 1)) * 100)) \<and>
     (\<forall>i<length pi_data. offset (pi_data ! i) = 0 \<longrightarrow>
        offset (out ! i) =
          (if median (out ! i) = 0 then 0
           else (price (out ! i) - median (out ! i)) / median (out ! i) * 100)) \<and>
     (\<forall>i<length pi_data. weeks_52 (pi_data ! i) = 0 \<longrightarrow>
        weeks_52 (out ! i) =
          (if i < 364 \<or> price (out ! (i - 364)) = 0 then 0
           else (price (out ! i) - price (out ! (i - 364))) / price (out ! (i - 364)) * 100))) \<and>
   (\<exists>out.
      engine klines yearly_multiplier num_display_days = Some out \<and>
      length out = length klines \<and>
      (\<forall>i<length klines.
         price (out ! i) = price (klines ! i) \<and>
         move (out ! i) =
           (if i = 0 \<or> price (klines ! (i - 1)) = 0 then 0
            else (price (klines ! i) - price (klines ! (i - 1))) / price (klines ! (i - 1)) * 100) \<and>
         offset (out ! i) =
           (if median (out ! i) = 0 then 0
            else (price (klines ! i) - median (out ! i)) / median (out ! i) * 100) \<and>
         weeks_52 (out ! i) =
           (if i < 364 \<or> price (klines ! (i - 364)) = 0 then 0
            else (price (klines ! i) - price (klines ! (i - 364))) / price (klines ! (i - 364)) * 100)))"
proof (rule conjI)
  show "\<exists>out.
     add_calculated_fields pi_data num_display_days = Some out \<and>
     length out = length pi_data \<and>
     (\<forall>i<length pi_data.
        price (out ! i) = price (pi_data ! i) \<and> median (out ! i) = median (pi_data ! i)) \<and>
     (\<forall>i<length pi_data. move (pi_data ! i) = 0 \<longrightarrow>
        move (out ! i) =
          (if i = 0 \<or> price (out ! (i - 1)) = 0 then 0
           else (price (out ! i) - price (out ! (i - 1))) / price (out ! (i - 1)) * 100)) \<and>
     (\<forall>i<length pi_data. offset (pi_data ! i) = 0 \<longrightarrow>
        offset (out ! i) =
          (if median (out ! i) = 0 then 0
           else (price (out ! i) - median (out ! i)) / median (out ! i) * 100)) \<and>
     (\<forall>i<length pi_data. weeks_52 (pi_data ! i) = 0 \<longrightarrow>
        weeks_52 (out ! i) =
          (if i < 364 \<or> price (out ! (i - 364)) = 0 then 0
           else (price (out ! i) - price (out ! (i - 364))) / price (out ! (i - 364)) * 100))"
    by (rule percentage_fields)
next
  let ?pd = "map (\<lambda>k. projected_row klines k PiCycleData_init) [0..<length klines]"
  from percentage_fields [of ?pd num_display_days] obtain out where
    run: "add_calculated_fields ?pd num_display_days = Some out" and
    len: "length out = length ?pd" and
    kept: "\<forall>i<length ?pd.
        price (out ! i) = price (?pd ! i) \<and> median (out ! i) = median (?pd ! i)" and
    mv: "\<forall>i<length ?pd. move (?pd ! i) = 0 \<longrightarrow>
        move (out ! i) =
          (if i = 0 \<or> price (out ! (i - 1)) = 0 then 0
           else (price (out ! i) - price (out ! (i - 1))) / price (out ! (i - 1)) * 100)" and
    off: "\<forall>i<length ?pd. offset (?pd ! i) = 0 \<longrightarrow>
        offset (out ! i) =
          (if median (out ! i) = 0 then 0
           else (price (out ! i) - median (out ! i)) / median (out ! i) * 100)" and
    wk: "\<forall>i<length ?pd. weeks_52 (?pd ! i) = 0 \<longrightarrow>
        weeks_52 (out ! i) =
          (if i < 364 \<or> price (out ! (i - 364)) = 0 then 0
           else (price (out ! i) - price (out ! (i - 364))) / price (out ! (i - 364)) * 100)"
    by blast
  have eng: "engine klines yearly_multiplier num_display_days = Some out"
    using run by (simp add: engine_def price_projection_eq)
  have len': "length out = length klines"
    using len by simp
  have pr: "price (out ! k) = price (klines ! k)" if "k < length klines" for k
    using kept [rule_format, of k] that by (simp add: projected_row_unset)
  have rows: "\<forall>i<length klines.
         price (out ! i) = price (klines ! i) \<and>
         move (out ! i) =
           (if i = 0 \<or> price (klines ! (i - 1)) = 0 then 0
            else (price (klines ! i) - price (klines ! (i - 1))) / price (klines ! (i - 1)) * 100) \<and>
         offset (out ! i) =
           (if median (out ! i) = 0 then 0
            else (price (klines ! i) - median (out ! i)) / median (out ! i) * 100) \<and>
         weeks_52 (out ! i) =
           (if i < 364 \<or> price (klines ! (i - 364)) = 0 then 0
            else (price (klines ! i) - price (klines ! (i - 364))) / price (klines ! (i - 364)) * 100)"
  proof (intro allI impI)
    fix i assume i: "i < length klines"
    then have i': "i < length ?pd"
      by simp
    have unset: "move (?pd ! i) = 0" "offset (?pd ! i) = 0" "weeks_52 (?pd ! i) = 0"
      using i by (simp_all add: projected_row_unset)
    have p: "price (out ! i) = price (klines ! i)"
      "price (out ! (i - 1)) = price (klines ! (i - 1))"
      "price (out ! (i - 364)) = price (klines ! (i - 364))"
      using i by (simp_all add: pr)
    show "price (out ! i) = price (klines ! i) \<and>
         move (out ! i) =
           (if i = 0 \<or> price (klines ! (i - 1)) = 0 then 0
            else (price (klines ! i) - price (klines ! (i - 1))) / price (klines ! (i - 1)) * 100) \<and>
         offset (out ! i) =
           (if median (out ! i) = 0 then 0
            else (price (klines ! i) - median (out ! i)) / median (out ! i) * 100) \<and>
         weeks_52 (out ! i) =
           (if i < 364 \<or> price (klines ! (i - 364)) = 0 then 0
            else (price (klines ! i) - price (klines ! (i - 364))) / price (klines ! (i - 364)) * 100)"
      using mv [rule_format, OF i' unset(1)] off [rule_format, OF i' unset(2)]
        wk [rule_format, OF i' unset(3)]
      unfolding p by simp
  qed
  show "\<exists>out.
      engine klines yearly_multiplier num_display_days = Some out \<and>
      length out = length klines \<and>
      (\<forall>i<length klines.
         price (out ! i) = price (klines ! i) \<and>
         move (out ! i) =
           (if i = 0 \<or> price (klines ! (i - 1)) = 0 then 0
            else (price (klines ! i) - price (klines ! (i - 1))) / price (klines ! (i - 1)) * 100) \<and>
         offset (out ! i) =
           (if median (out ! i) = 0 then 0
            else (price (klines ! i) - median (out ! i)) / median (out ! i) * 100) \<and>
         weeks_52 (out ! i) =
           (if i < 364 \<or> price (klines ! (i - 364)) = 0 then 0
            else (price (klines ! i) - price (klines ! (i - 364))) / price (klines ! (i - 364)) * 100))"
    by (intro exI [of _ out] conjI) (fact eng len' rows)+
qed

theorem division_by_zero_policy_witness:
  "(\<exists>out. add_calculated_fields three_rows 33 = Some out \<and>
      move (out ! 0) = 0 \<and> move (out ! 1) = 0 \<and> move (out ! 2) = 20 \<and>
      offset (out ! 1) = 0 \<and> offset (out ! 2) = 50 \<and> weeks_52 (out ! 2) = 0) \<and>
   (\<exists>out. add_calculated_fields scenario_B_rows 33 = Some out \<and>
      move (out ! 364) = 30 \<and> offset (out ! 364) = 0 \<and> weeks_52 (out ! 364) = 30) \<and>
   (\<exists>out. engine scenario_B 1 33 = Some out \<and>
      move (out ! 0) = 0 \<and> move (out ! 364) = 30 \<and>
      weeks_52 (out ! 363) = 0 \<and> weeks_52 (out ! 364) = 30)"
proof -
  from division_by_zero_policy [of three_rows 33 scenario_B 1, THEN conjunct1] obtain out where
    run: "add_calculated_fields three_rows 33 = Some out" and
    kept: "\<forall>i<length three_rows.
        price (out ! i) = price (three_rows ! i) \<and> median (out ! i) = median (three_rows ! i)" and
    mv: "\<forall>i<length three_rows. move (three_rows ! i) = 0 \<longrightarrow>
        move (out ! i) =
          (if i = 0 \<or> price (out ! (i - 1)) = 0 then 0
           else (price (out ! i) - price (out ! (i - 1))) / price (out ! (i - 1)) * 100)" and
    off: "\<forall>i<length three_rows. offset (three_rows ! i) = 0 \<longrightarrow>
        offset (out ! i) =
          (if median (out ! i) = 0 then 0
           else (price (out ! i) - median (out ! i)) / median (out ! i) * 100)" and
    wk: "\<forall>i<length three_rows. weeks_52 (three_rows ! i) = 0 \<longrightarrow>
        weeks_52 (out ! i) =
          (if i < 364 \<or> price (out ! (i - 364)) = 0 then 0
           else (price (out ! i) - price (out ! (i - 364))) / price (out ! (i - 364)) * 100)"
    by blast
  have p: "price (out ! 0) = 0" "price (out ! 1) = 50" "price (out ! 2) = 60"
    "median (out ! 1) = 0" "median (out ! 2) = 40"
    using kept [rule_format, of 0] kept [rule_format, of 1] kept [rule_format, of 2]
    by (simp_all add: three_rows_fields)
  have small: "\<exists>out. add_calculated_fields three_rows 33 = Some out \<and>
      move (out ! 0) = 0 \<and> move (out ! 1) = 0 \<and> move (out ! 2) = 20 \<and>
      offset (out ! 1) = 0 \<and> offset (out ! 2) = 50 \<and> weeks_52 (out ! 2) = 0"
    using run p mv [rule_format, of 0] mv [rule_format, of 1] mv [rule_format, of 2]
      off [rule_format, of 1] off [rule_format, of 2] wk [rule_format, of 2]
    by (simp add: three_rows_fields)
  from division_by_zero_policy [of scenario_B_rows 33 scenario_B 1, THEN conjunct1] obtain out' where
    run': "add_calculated_fields scenario_B_rows 33 = Some out'" and
    kept': "\<forall>i<length scenario_B_rows.
        price (out' ! i) = price (scenario_B_rows ! i) \<and>
        median (out' ! i) = median (scenario_B_rows ! i)" and
    mv': "\<forall>i<length scenario_B_rows. move (scenario_B_rows ! i) = 0 \<longrightarrow>
        move (out' ! i) =
          (if i = 0 \<or> price (out' ! (i - 1)) = 0 then 0
           else (price (out' ! i) - price (out' ! (i - 1))) / price (out' ! (i - 1)) * 100)" and
    off': "\<forall>i<length scenario_B_rows. offset (scenario_B_rows ! i) = 0 \<longrightarrow>
        offset (out' ! i) =
          (if median (out' ! i) = 0 then 0
           else (price (out' ! i) - median (out' ! i)) / median (out' ! i) * 100)" and
    wk': "\<forall>i<length scenario_B_rows. weeks_52 (scenario_B_rows ! i) = 0 \<longrightarrow>
        weeks_52 (out' ! i) =
          (if i < 364 \<or> price (out' ! (i - 364)) = 0 then 0
           else (price (out' ! i) - price (out' ! (i - 364))) / price (out' ! (i - 364)) * 100)"
    by blast
  have p': "price (out' ! 0) = 100" "price (out' ! 363) = 100" "price (out' ! 364) = 130"
    "median (out' ! 364) = 0"
    using kept' [rule_format, of 0] kept' [rule_format, of 363] kept' [rule_format, of 364]
      init_scenario_B_rows [of 364]
    by (simp_all add: price_scenario_B_rows)
  have year: "\<exists>out. add_calculated_fields scenario_B_rows 33 = Some out \<and>
      move (out ! 364) = 30 \<and> offset (out ! 364) = 0 \<and> weeks_52 (out ! 364) = 30"
    using run' p' mv' [rule_format, of 364] off' [rule_format, of 364] wk' [rule_format, of 364]
      init_scenario_B_rows [of 364]
    by simp
  from division_by_zero_policy [of scenario_B_rows 33 scenario_B 1, THEN conjunct2]
  obtain out'' where
    run'': "engine scenario_B 1 33 = Some out''" and
    rows: "\<forall>i<length scenario_B.
         price (out'' ! i) = price (scenario_B ! i) \<and>
         move (out'' ! i) =
           (if i = 0 \<or> price (scenario_B ! (i - 1)) = 0 then 0
            else (price (scenario_B ! i) - price (scenario_B ! (i - 1))) /
                 price (scenario_B ! (i - 1)) * 100) \<and>
         offset (out'' ! i) =
           (if median (out'' ! i) = 0 then 0
            else (price (scenario_B ! i) - median (out'' ! i)) / median (out'' ! i) * 100) \<and>
         weeks_52 (out'' ! i) =
           (if i < 364 \<or> price (scenario_B ! (i - 364)) = 0 then 0
            else (price (scenario_B ! i) - price (scenario_B ! (i - 364))) /
                 price (scenario_B ! (i - 364)) * 100)"
    by blast
  have pipeline: "\<exists>out. engine scenario_B 1 33 = Some out \<and>
      move (out ! 0) = 0 \<and> move (out ! 364) = 30 \<and>
      weeks_52 (out ! 363) = 0 \<and> weeks_52 (out ! 364) = 30"
    using run'' rows [rule_format, of 0] rows [rule_format, of 363] rows [rule_format, of 364]
    by (simp add: price_scenario_B)
  show ?thesis
    using small year pipeline by (intro conjI)
qed

text \<open>
  C6. The zone classifier. The colour of a row is a total function of its price, median,
  ceiling and floor, and it is the function the specification describes: within 2% of the
  median, one of the three near-median zones by the sign of \<open>price - median\<close>; otherwise,
  at or above the median, by \<open>frac = (price - median) / (ceiling - median)\<close> when
  \<open>ceiling > median\<close> and \<open>frac = 0\<close> when not, topmost from 0.575, second from 0.29, else
  third; below the median alike with \<open>(median - price) / (median - floor)\<close>. It is always
  one of the nine zones. With a degenerate band (\<open>ceiling = median\<close>, or \<open>median = floor\<close>)
  a row outside the 2% band gets the zone of lowest intensity on its side.
\<close>

theorem zone_classifier:
  "row_color row = zone_spec (price row) (median row) (ceiling_f row) (floor_f row) \<and>
   row_color row \<in> set zone_scale \<and>
   (ceiling_f row = median row \<longrightarrow> \<not> \<bar>price row - median row\<bar> \<le> 0.02 * median row \<longrightarrow>
      price row \<ge> median row \<longrightarrow> row_color row = COLOR_DARK_GREEN) \<and>
   (median row = floor_f row \<longrightarrow> \<not> \<bar>price row - median row\<bar> \<le> 0.02 * median row \<longrightarrow>
      price row < median row \<longrightarrow> row_color row = COLOR_DARK_RED)"
proof -
  have spec: "row_color row = zone_spec (price row) (median row) (ceiling_f row) (floor_f row)"
    by (simp add: row_color_def zone_spec_def Let_def mult.commute)
  have scale: "row_color row \<in> set zone_scale"
    by (simp add: row_color_def zone_scale_def Let_def)
  have above: "row_color row = COLOR_DARK_GREEN"
    if "ceiling_f row = median row" "\<not> \<bar>price row - median row\<bar> \<le> 0.02 * median row"
      "price row \<ge> median row"
    using that by (simp add: row_color_def Let_def mult.commute)
  have below: "row_color row = COLOR_DARK_RED"
    if "median row = floor_f row" "\<not> \<bar>price row - median row\<bar> \<le> 0.02 * median row"
      "price row < median row"
    using that by (simp add: row_color_def Let_def mult.commute)
  show ?thesis
    using spec scale above below by blast
qed

theorem zone_classifier_witness:
  "row_color flat_band_above = COLOR_DARK_GREEN \<and> row_color flat_band_below = COLOR_DARK_RED"
proof -
  have a: "ceiling_f flat_band_above = median flat_band_above"
    "\<not> \<bar>price flat_band_above - median flat_band_above\<bar> \<le> 0.02 * median flat_band_above"
    "price flat_band_above \<ge> median flat_band_above"
    by (simp_all add: flat_band_above_def PiCycleData_init_def)
  have b: "median flat_band_below = floor_f flat_band_below"
    "\<not> \<bar>price flat_band_below - median flat_band_below\<bar> \<le> 0.02 * median flat_band_below"
    "price flat_band_below < median flat_band_below"
    by (simp_all add: flat_band_below_def PiCycleData_init_def)
  have "row_color flat_band_above = COLOR_DARK_GREEN"
    using zone_classifier [of flat_band_above] a by blast
  moreover have "row_color flat_band_below = COLOR_DARK_RED"
    using zone_classifier [of flat_band_below] b by blast
  ultimately show ?thesis
    by (rule conjI)
qed

text \<open>
  C7. The symmetry of the zones. For a row with \<open>ceiling > median > floor\<close> and
  \<open>median > 0\<close> and a relative distance \<open>t\<close> from the median (a distance: \<open>t > 0\<close>), the
  row priced at \<open>median + t * (ceiling - median)\<close>, above the median, and the row priced at
  \<open>median - t * (median - floor)\<close>, below it, both outside the 2% band around the median,
  get mirror-image zones of the nine-level scale: topmost above with bottommost below, and
  so on.
\<close>

theorem zone_symmetry:
  assumes "ceiling_f row > median row" and "median row > floor_f row" and "median row > 0"
    and "0 < t"
    and "\<not> near_median (row_above row t)" and "\<not> near_median (row_below row t)"
  shows "row_color (row_below row t) = mirror (row_color (row_above row t)) \<and>
         row_color (row_above row t) = mirror (row_color (row_below row t))"
proof -
  have up: "row_color (row_above row t) =
     (if t \<ge> 0.575 then COLOR_BRIGHT_GREEN else if t \<ge> 0.29 then COLOR_GREEN
      else COLOR_DARK_GREEN)"
  proof (rule row_color_above)
    show "median (row_above row t) < ceiling_f (row_above row t)"
      using assms(1) by simp
    show "price (row_above row t) =
        median (row_above row t) + t * (ceiling_f (row_above row t) - median (row_above row t))"
      by simp
    show "0 \<le> t"
      using assms(4) by simp
    show "\<not> near_median (row_above row t)"
      by (rule assms(5))
  qed
  have down: "row_color (row_below row t) =
     (if t \<ge> 0.575 then COLOR_BRIGHT_RED else if t \<ge> 0.29 then COLOR_RED
      else COLOR_DARK_RED)"
  proof (rule row_color_below)
    show "floor_f (row_below row t) < median (row_below row t)"
      using assms(2) by simp
    show "price (row_below row t) =
        median (row_below row t) - t * (median (row_below row t) - floor_f (row_below row t))"
      by simp
    show "0 < t"
      by (rule assms(4))
    show "\<not> near_median (row_below row t)"
      by (rule assms(6))
  qed
  show ?thesis
    unfolding up down by simp
qed

theorem zone_symmetry_witness:
  "row_color (row_above band_row (3 / 5)) = COLOR_BRIGHT_GREEN \<and>
   row_color (row_below band_row (3 / 5)) = COLOR_BRIGHT_RED \<and>
   price (row_above band_row (3 / 5)) = 106 \<and> price (row_below band_row (3 / 5)) = 97"
proof -
  have f: "ceiling_f band_row = 110" "median band_row = 100" "floor_f band_row = 95"
    by (simp_all add: band_row_def PiCycleData_init_def)
  have h: "ceiling_f band_row > median band_row" "median band_row > floor_f band_row"
    "median band_row > 0" "(0::real) < 3 / 5"
    "\<not> near_median (row_above band_row (3 / 5))" "\<not> near_median (row_below band_row (3 / 5))"
    by (simp_all add: f near_median_def)
  have up: "row_color (row_above band_row (3 / 5)) = COLOR_BRIGHT_GREEN"
    by (simp add: row_color_def f)
  have "row_color (row_below band_row (3 / 5)) = mirror (row_color (row_above band_row (3 / 5)))"
    using zone_symmetry [OF h] by (rule conjunct1)
  then have "row_color (row_below band_row (3 / 5)) = COLOR_BRIGHT_RED"
    unfolding up by simp
  then show ?thesis
    using up by (simp add: f)
qed

text \<open>
  C8. The projector. On every non-empty sequence of rows, most recent first, the display
  followed by the projection returns a result; the smoothed drift is the arithmetic mean of
  the \<^verbatim>\<open>step\<close> values of the first \<open>min 30 (length rows)\<close> rows, so with fewer than 30 rows
  it averages exactly the rows there are; and the +4w estimate is the median of the most
  recent row plus 30 times the drift. The projection itself reads its baseline from the
  global \<^verbatim>\<open>first_row_baseline\<close>, which the display has set to that median.
\<close>

theorem projector_postcondition:
  assumes "pi_data_reversed \<noteq> []"
  shows "\<exists>p q.
     report pi_data_reversed days_until_2025 g = Some p \<and>
     average_top_steps p =
       sum_list (map step (take 30 pi_data_reversed)) / real (min 30 (length pi_data_reversed)) \<and>
     predicted_price_4w p = median (hd pi_data_reversed) + average_top_steps p * 30 \<and>
     predicted_price_2025 p =
       median (hd pi_data_reversed) + average_top_steps p * real_of_int days_until_2025 \<and>
     prediction_target_step pi_data_reversed days_until_2025 g = Some q \<and>
     average_top_steps q = average_top_steps p \<and>
     predicted_price_4w q = first_row_baseline g + average_top_steps q * 30"
proof -
  obtain first_row rest where rs: "pi_data_reversed = first_row # rest"
    using assms by (cases pi_data_reversed) auto
  have base: "first_row_baseline (snd (display_public pi_data_reversed g)) = median (hd pi_data_reversed)"
    by (simp add: display_public_def rs)
  have rep: "report pi_data_reversed days_until_2025 g =
      prediction_target_step pi_data_reversed days_until_2025 (snd (display_public pi_data_reversed g))"
    by (simp add: report_def case_prod_beta)
  show ?thesis
    unfolding rep prediction_target_step_eq base using assms by simp
qed

theorem projector_postcondition_witness:
  "ten_rows \<noteq> [] \<and>
   (\<exists>p. report ten_rows 60 globals_init = Some p \<and>
      average_top_steps p = 11 / 2 \<and> predicted_price_4w p = 265 \<and>
      predicted_price_2025 p = 430)"
proof -
  have ne: "ten_rows \<noteq> []"
    by (simp add: ten_rows_def)
  from projector_postcondition [OF ne, of 60 globals_init] obtain p where
    p: "report ten_rows 60 globals_init = Some p"
      "average_top_steps p = sum_list (map step (take 30 ten_rows)) / real (min 30 (length ten_rows))"
      "predicted_price_4w p = median (hd ten_rows) + average_top_steps p * 30"
      "predicted_price_2025 p = median (hd ten_rows) + average_top_steps p * real_of_int 60"
    by blast
  have avg: "average_top_steps p = 11 / 2"
    using p(2) by (simp add: ten_rows_def)
  have "median (hd ten_rows) = 100"
    by (simp add: ten_rows_def)
  then show ?thesis
    using ne p(1,3,4) avg by simp
qed

text \<open>
  C10. The band is ordered. Every row that \<^verbatim>\<open>price_projection\<close> produces, at every index, has
  \<^verbatim>\<open>floor \<le> median \<le> ceiling\<close> and \<^verbatim>\<open>ceiling + floor == 2 * median\<close>. At an index
  \<open>i \<ge> 364\<close> both gaps equal \<^verbatim>\<open>std_365\<close>, which is not negative, so floor, median and
  ceiling coincide exactly when the standard deviation of the window is zero.
\<close>

theorem band_ordering:
  assumes "i < length klines"
  shows "\<exists>pi_data. price_projection klines yearly_multiplier = Some pi_data \<and>
     floor_f (pi_data ! i) \<le> median (pi_data ! i) \<and>
     median (pi_data ! i) \<le> ceiling_f (pi_data ! i) \<and>
     ceiling_f (pi_data ! i) + floor_f (pi_data ! i) = 2 * median (pi_data ! i) \<and>
     (364 \<le> i \<longrightarrow>
        median (pi_data ! i) - floor_f (pi_data ! i) = std_365 (pi_data ! i) \<and>
        ceiling_f (pi_data ! i) - median (pi_data ! i) = std_365 (pi_data ! i) \<and>
        0 \<le> std_365 (pi_data ! i) \<and>
        ((floor_f (pi_data ! i) = median (pi_data ! i) \<and>
          median (pi_data ! i) = ceiling_f (pi_data ! i)) \<longleftrightarrow> std_365 (pi_data ! i) = 0))"
proof (cases "364 \<le> i")
  case True
  have "0 \<le> window_std klines i"
    by (rule window_std_nonneg)
  then show ?thesis
    using assms True by (simp add: price_projection_eq projected_row_window)
next
  case False
  then show ?thesis
    using assms by (simp add: price_projection_eq projected_row_early PiCycleData_init_def)
qed

theorem band_ordering_witness:
  "364 < length scenario_B \<and>
   (\<exists>pi_data. price_projection scenario_B 1 = Some pi_data \<and>
     floor_f (pi_data ! 364) < median (pi_data ! 364) \<and>
     median (pi_data ! 364) < ceiling_f (pi_data ! 364) \<and>
     ceiling_f (pi_data ! 364) + floor_f (pi_data ! 364) = 2 * median (pi_data ! 364) \<and>
     median (pi_data ! 364) - floor_f (pi_data ! 364) = std_365 (pi_data ! 364) \<and>
     ceiling_f (pi_data ! 364) - median (pi_data ! 364) = std_365 (pi_data ! 364) \<and>
     1 < std_365 (pi_data ! 364))"
proof -
  have len: "364 < length scenario_B"
    by simp
  from band_ordering [OF len, of 1] obtain pi_data where
    pd: "price_projection scenario_B 1 = Some pi_data"
      "floor_f (pi_data ! 364) \<le> median (pi_data ! 364)"
      "median (pi_data ! 364) \<le> ceiling_f (pi_data ! 364)"
      "ceiling_f (pi_data ! 364) + floor_f (pi_data ! 364) = 2 * median (pi_data ! 364)"
      "median (pi_data ! 364) - floor_f (pi_data ! 364) = std_365 (pi_data ! 364)"
      "ceiling_f (pi_data ! 364) - median (pi_data ! 364) = std_365 (pi_data ! 364)"
    by auto
  have "1 < std_365 (pi_data ! 364)"
    using price_projection_scenario_B [OF pd(1)] window_std_scenario_B_gt by simp
  then show ?thesis
    using len pd by auto
qed

end
